theory Spec2Isabelle
  imports Main "HOL-Library.Char_ord" "HOL-Library.List_Lexorder" "HOL-Library.Sublist"
    "HOL-Library.AList" "HOL-Library.Multiset"
begin

section \<open>Strings\<close>

text \<open>
  The indexer of \<^verbatim>\<open>doc_indexer.py\<close> works on Python \<^verbatim>\<open>str\<close> values. A string is
  modelled as a \<^typ>\<open>string\<close>, each \<^typ>\<open>char\<close> standing for one code point below 256
  (ASCII and Latin-1); \<^term>\<open>of_char c\<close> is the code point. The order on strings
  (\<^verbatim>\<open>sorted\<close>) is the lexicographic order on code points.
\<close>

definition code :: "char \<Rightarrow> nat" where
  "code c = of_char c"

definition in_range :: "char \<Rightarrow> char \<Rightarrow> char \<Rightarrow> bool" where
  "in_range lo hi c = (lo \<le> c \<and> c \<le> hi)"

definition is_upper_ascii :: "char \<Rightarrow> bool" where
  "is_upper_ascii c = in_range CHR ''A'' CHR ''Z'' c"

definition is_lower_ascii :: "char \<Rightarrow> bool" where
  "is_lower_ascii c = in_range CHR ''a'' CHR ''z'' c"

definition is_digit :: "char \<Rightarrow> bool" where
  "is_digit c = in_range CHR ''0'' CHR ''9'' c"

definition is_upper_latin1 :: "char \<Rightarrow> bool" where
  \<comment> \<open>the capital letters U+00C0 to U+00DE; U+00D7 is the multiplication sign\<close>
  "is_upper_latin1 c = (in_range CHR 0xC0 CHR 0xDE c \<and> c \<noteq> CHR 0xD7)"

definition lower_char :: "char \<Rightarrow> char" where
  "lower_char c =
     (if is_upper_ascii c \<or> is_upper_latin1 c then char_of (code c + 32) else c)"

definition lower :: "string \<Rightarrow> string" where
  \<comment> \<open>\<^verbatim>\<open>str.lower()\<close>\<close>
  "lower s = map lower_char s"

definition is_space :: "char \<Rightarrow> bool" where
  \<comment> \<open>\<^verbatim>\<open>str.isspace()\<close> on one character\<close>
  "is_space c =
     (in_range CHR 0x09 CHR 0x0D c \<or> in_range CHR 0x1C CHR 0x20 c
      \<or> c = CHR 0x85 \<or> c = CHR 0xA0)"

definition strip :: "string \<Rightarrow> string" where
  \<comment> \<open>\<^verbatim>\<open>str.strip()\<close>\<close>
  "strip s = rev (dropWhile is_space (rev (dropWhile is_space s)))"

function replace :: "string \<Rightarrow> string \<Rightarrow> string \<Rightarrow> string" where
  \<comment> \<open>\<^verbatim>\<open>s.replace(old, new)\<close>: every occurrence, left to right, none overlapping\<close>
  "replace old new [] = (if old = [] then new else [])"
| "replace old new (c # cs) =
     (if old = [] then new @ c # replace old new cs
      else if prefix old (c # cs)
        then new @ replace old new (drop (length old) (c # cs))
        else c # replace old new cs)"
  by pat_completeness auto
termination
  by (relation "measure (\<lambda>(old, new, s). length s)") auto

definition endswith :: "string \<Rightarrow> string \<Rightarrow> bool" where
  \<comment> \<open>\<^verbatim>\<open>s.endswith(suf)\<close>\<close>
  "endswith s suf =
     (length suf \<le> length s \<and> drop (length s - length suf) s = suf)"

definition startswith :: "string \<Rightarrow> string \<Rightarrow> bool" where
  "startswith s pre = (take (length pre) s = pre)"

fun split :: "char \<Rightarrow> string \<Rightarrow> string list" where
  \<comment> \<open>\<^verbatim>\<open>s.split(sep)\<close> for a separator of one character\<close>
  "split sep [] = [[]]"
| "split sep (c # cs) =
     (if c = sep then [] # split sep cs
      else (case split sep cs of
              [] \<Rightarrow> [[c]]
            | w # ws \<Rightarrow> (c # w) # ws))"

fun join :: "string \<Rightarrow> string list \<Rightarrow> string" where
  \<comment> \<open>\<^verbatim>\<open>sep.join(parts)\<close>\<close>
  "join sep [] = []"
| "join sep [x] = x"
| "join sep (x # y # ys) = x @ sep @ join sep (y # ys)"

definition digit_char :: "nat \<Rightarrow> char" where
  "digit_char d = char_of (code CHR ''0'' + d)"

function str_nat :: "nat \<Rightarrow> string" where
  \<comment> \<open>\<^verbatim>\<open>str(n)\<close>, also \<^verbatim>\<open>'%d' % n\<close>, for \<open>n \<ge> 0\<close>\<close>
  "str_nat n = (if n < 10 then [digit_char n] else str_nat (n div 10) @ [digit_char (n mod 10)])"
  by pat_completeness auto
termination
  by (relation "measure id") auto

declare str_nat.simps [simp del]

section \<open>Anchors\<close>

text \<open>
  \<^verbatim>\<open>anchor = text.lower().replace(' ', '-').replace('.', '').replace('(', '').replace(')', '')\<close>
\<close>

definition anchor :: "string \<Rightarrow> string" where
  "anchor text =
     replace '')'' '''' (replace ''('' '''' (replace ''.'' '''' (replace '' '' ''-'' (lower text))))"

section \<open>Regular expressions\<close>

text \<open>
  The patterns of the indexer use character classes, concatenation, alternation, the greedy
  repetitions \<^verbatim>\<open>*\<close>, \<^verbatim>\<open>+\<close>, \<^verbatim>\<open>?\<close> and \<^verbatim>\<open>{2,}\<close>, the word boundary \<^verbatim>\<open>\b\<close> and,
  under \<^verbatim>\<open>re.MULTILINE\<close>, the anchors \<^verbatim>\<open>^\<close> and \<^verbatim>\<open>$\<close>. A pattern is a value of
  \<open>rx\<close>; a character class is a list of ranges, taken positively or negated.
\<close>

datatype cset = In "(char \<times> char) list" | NotIn "(char \<times> char) list"

datatype rx = Eps | Cls cset | Seq rx rx | Alt rx rx | Star rx | WordB | Bol | Eol

definition in_ranges :: "(char \<times> char) list \<Rightarrow> char \<Rightarrow> bool" where
  "in_ranges rs c = list_ex (\<lambda>(lo, hi). in_range lo hi c) rs"

fun in_cset :: "cset \<Rightarrow> char \<Rightarrow> bool" where
  "in_cset (In rs) c = in_ranges rs c"
| "in_cset (NotIn rs) c = (\<not> in_ranges rs c)"

definition chr :: "char \<Rightarrow> rx" where
  "chr c = Cls (In [(c, c)])"

definition lit :: "string \<Rightarrow> rx" where
  \<comment> \<open>a run of literal characters\<close>
  "lit s = foldr (\<lambda>c r. Seq (chr c) r) s Eps"

definition dot :: rx where
  \<comment> \<open>\<^verbatim>\<open>.\<close> without \<^verbatim>\<open>re.DOTALL\<close>: any character but the newline\<close>
  "dot = Cls (NotIn [(CHR 0x0A, CHR 0x0A)])"

definition plus :: "rx \<Rightarrow> rx" where
  "plus r = Seq r (Star r)"

definition opt :: "rx \<Rightarrow> rx" where
  "opt r = Alt r Eps"

definition at_least2 :: "rx \<Rightarrow> rx" where
  \<comment> \<open>\<^verbatim>\<open>r{2,}\<close>\<close>
  "at_least2 r = Seq r (Seq r (Star r))"

definition is_word :: "char \<Rightarrow> bool" where
  \<comment> \<open>\<^verbatim>\<open>\w\<close> of a \<^verbatim>\<open>str\<close> pattern: alphanumeric in Unicode, or the underscore\<close>
  "is_word c =
     (is_lower_ascii c \<or> is_upper_ascii c \<or> is_digit c \<or> c = CHR ''_''
      \<or> c \<in> set [CHR 0xAA, CHR 0xB2, CHR 0xB3, CHR 0xB5, CHR 0xB9, CHR 0xBA,
                    CHR 0xBC, CHR 0xBD, CHR 0xBE]
      \<or> (in_range CHR 0xC0 CHR 0xFF c \<and> c \<noteq> CHR 0xD7 \<and> c \<noteq> CHR 0xF7))"

definition word_before :: "char option \<Rightarrow> bool" where
  "word_before p = (case p of None \<Rightarrow> False | Some c \<Rightarrow> is_word c)"

definition word_after :: "string \<Rightarrow> bool" where
  "word_after s = (case s of [] \<Rightarrow> False | c # _ \<Rightarrow> is_word c)"

text \<open>
  A matching state is the character before the current position (\<open>None\<close> at the start of
  the string) and the text from the position on. \<open>ms r st\<close> lists the states in which a
  match of \<open>r\<close> begun at \<open>st\<close> can end, in the order in which the backtracking matcher of
  \<^verbatim>\<open>re\<close> tries them: the left alternative before the right, a further repetition before
  none. The matcher takes the first state of the list that lets the rest of the pattern
  match, which for a whole pattern is the head of the list. A repetition whose body
  consumed nothing is not repeated.
\<close>

type_synonym mstate = "char option \<times> string"

function ms :: "rx \<Rightarrow> mstate \<Rightarrow> mstate list" where
  "ms Eps st = [st]"
| "ms (Cls cs) (p, []) = []"
| "ms (Cls cs) (p, c # s) = (if in_cset cs c then [(Some c, s)] else [])"
| "ms (Seq a b) st = concat (map (ms b) (ms a st))"
| "ms (Alt a b) st = ms a st @ ms b st"
| "ms (Star a) st =
     concat (map (ms (Star a))
       (filter (\<lambda>st'. length (snd st') < length (snd st)) (ms a st))) @ [st]"
| "ms WordB (p, s) = (if word_before p \<noteq> word_after s then [(p, s)] else [])"
| "ms Bol (p, s) = (if p = None \<or> p = Some (CHR 0x0A) then [(p, s)] else [])"
| "ms Eol (p, s) = (if s = [] \<or> hd s = CHR 0x0A then [(p, s)] else [])"
  by pat_completeness auto
termination
  by (relation "measures [\<lambda>(r, st). size r, \<lambda>(r, st). length (snd st)]") auto

text \<open>
  Scanning a string for the matches of a pattern, as \<^verbatim>\<open>re.search\<close>, \<^verbatim>\<open>re.findall\<close> and
  \<^verbatim>\<open>re.sub\<close> do: at each position the first way to match wins; after a match the scan
  goes on where the match ended; where nothing matches, one character is passed over.
  After an empty match the next match at the same position must not be empty (the flag
  \<open>adv\<close>).
\<close>

datatype piece = Gap char | Hit string

function scan :: "rx \<Rightarrow> bool \<Rightarrow> char option \<Rightarrow> string \<Rightarrow> piece list" where
  "scan r adv p s =
     (case filter (\<lambda>st'. length (snd st') < length s \<or> (\<not> adv \<and> length (snd st') = length s))
             (ms r (p, s)) of
        [] \<Rightarrow> (case s of [] \<Rightarrow> [] | c # cs \<Rightarrow> Gap c # scan r False (Some c) cs)
      | (p', s') # _ \<Rightarrow>
          Hit (take (length s - length s') s) # scan r (length s' = length s) p' s')"
  by pat_completeness auto
termination
  by (relation "measures [\<lambda>(r, adv, p, s). length s, \<lambda>(r, adv, p, s). if adv then 0 else 1]")
    (auto dest!: Cons_eq_filterD [OF sym])

declare scan.simps [simp del]

fun first_hit :: "nat \<Rightarrow> piece list \<Rightarrow> (nat \<times> nat) option" where
  "first_hit n [] = None"
| "first_hit n (Gap c # ps) = first_hit (Suc n) ps"
| "first_hit n (Hit m # ps) = Some (n, n + length m)"

definition search :: "rx \<Rightarrow> string \<Rightarrow> (nat \<times> nat) option" where
  \<comment> \<open>\<^verbatim>\<open>re.search(r, s)\<close>: where the first match starts and ends\<close>
  "search r s = first_hit 0 (scan r False None s)"

fun hits :: "piece list \<Rightarrow> string list" where
  "hits [] = []"
| "hits (Gap c # ps) = hits ps"
| "hits (Hit m # ps) = m # hits ps"

definition findall :: "rx \<Rightarrow> string \<Rightarrow> string list" where
  \<comment> \<open>\<^verbatim>\<open>re.findall(r, s)\<close> for a pattern without groups\<close>
  "findall r s = hits (scan r False None s)"

section \<open>Exceptions\<close>

text \<open>
  An exception is a value: its class and the text \<^verbatim>\<open>str(e)\<close>. Every class below is a
  subclass of \<^verbatim>\<open>Exception\<close>.
\<close>

datatype error =
    OSError string
  | UnicodeError string
  | ValueError string
  | IndexError string
  | ReError string
  | RenderError string

fun str_error :: "error \<Rightarrow> string" where
  "str_error (OSError m) = m"
| "str_error (UnicodeError m) = m"
| "str_error (ValueError m) = m"
| "str_error (IndexError m) = m"
| "str_error (ReError m) = m"
| "str_error (RenderError m) = m"

definition newline :: char where
  "newline = CHR 0x0A"

definition backslash :: char where
  "backslash = CHR 0x5C"

definition re_error :: "string \<Rightarrow> string \<Rightarrow> nat \<Rightarrow> error" where
  \<comment> \<open>\<^verbatim>\<open>re.error(msg, pattern, pos)\<close>: the text names the position, and the line and column
      when the pattern has a newline\<close>
  "re_error msg pattern pos =
     (let pre = take pos pattern;
          lineno = length (filter (\<lambda>c. c = newline) pre) + 1;
          colno = length (takeWhile (\<lambda>c. c \<noteq> newline) (rev pre)) + 1
      in ReError (msg @ '' at position '' @ str_nat pos @
           (if newline \<in> set pattern
            then '' (line '' @ str_nat lineno @ '', column '' @ str_nat colno @ '')''
            else [])))"

section \<open>Replacement templates\<close>

text \<open>
  \<^verbatim>\<open>re.sub(pattern, repl, string)\<close> takes a replacement without a backslash as it is;
  any other is parsed as a template (\<^verbatim>\<open>re._parser.parse_template\<close>), here for a pattern
  without groups: an escape such as the backslash with \<^verbatim>\<open>n\<close> stands for its character,
  the escape \<^verbatim>\<open>g<0>\<close> for the matched text, and an unknown escape of a letter or a
  reference to a group other than 0 raises. The tokenizer reads one token ahead; a token
  is a character, or a backslash with the character after it.
\<close>

datatype tpl = Lit string | Group0

type_synonym tk = "string option \<times> string"

fun tk_next :: "string \<Rightarrow> string \<Rightarrow> error + tk" where
  \<comment> \<open>\<^verbatim>\<open>Tokenizer.__next\<close>: \<open>src\<close> is the whole template, the second argument what is left\<close>
  "tk_next src [] = Inr (None, [])"
| "tk_next src (c # cs) =
     (if c = backslash
      then (case cs of
              [] \<Rightarrow> Inl (re_error ''bad escape (end of pattern)'' src (length src - 1))
            | d # ds \<Rightarrow> Inr (Some [c, d], ds))
      else Inr (Some [c], cs))"

definition tell :: "string \<Rightarrow> tk \<Rightarrow> nat" where
  "tell src t = length src - length (snd t) - (case fst t of None \<Rightarrow> 0 | Some x \<Rightarrow> length x)"

definition tk_error :: "string \<Rightarrow> tk \<Rightarrow> string \<Rightarrow> nat \<Rightarrow> error" where
  "tk_error src t msg offset = re_error msg src (tell src t - offset)"

definition tk_weight :: "tk \<Rightarrow> nat" where
  "tk_weight t = length (snd t) + (case fst t of None \<Rightarrow> 0 | Some x \<Rightarrow> 1)"

lemma tk_next_weight: "tk_next src rest = Inr t \<Longrightarrow> tk_weight t \<le> length rest"
  by (cases rest) (auto simp: tk_weight_def split: if_splits list.splits)

function getuntil :: "string \<Rightarrow> tk \<Rightarrow> string \<Rightarrow> error + (string \<times> tk)" where
  \<comment> \<open>\<^verbatim>\<open>Tokenizer.getuntil('>', 'group name')\<close>\<close>
  "getuntil src (nx, rest) result =
     (case tk_next src rest of
        Inl e \<Rightarrow> Inl e
      | Inr t \<Rightarrow>
          (case nx of
             None \<Rightarrow>
               (if result = [] then Inl (tk_error src t ''missing group name'' 0)
                else Inl (tk_error src t ''missing >, unterminated name'' (length result)))
           | Some c \<Rightarrow>
               if c = ''>''
               then (if result = [] then Inl (tk_error src t ''missing group name'' 1)
                     else Inr (result, t))
               else getuntil src t (result @ c)))"
  by pat_completeness auto
termination
  by (relation "measure (\<lambda>(src, t, result). tk_weight t)")
    (auto dest!: tk_next_weight simp: tk_weight_def)

declare getuntil.simps [simp del]

lemma getuntil_weight:
  "getuntil src t result = Inr (name, t') \<Longrightarrow> tk_weight t' < tk_weight t"
proof (induction src t result rule: getuntil.induct)
  case (1 src nx rest result)
  from "1.prems" obtain t1 where t1: "tk_next src rest = Inr t1"
    by (subst (asm) getuntil.simps) (auto split: sum.splits)
  from "1.prems" t1 obtain c where c: "nx = Some c"
    by (subst (asm) getuntil.simps) (auto split: option.splits if_splits)
  have w: "tk_weight t1 < tk_weight (nx, rest)"
    using tk_next_weight [OF t1] c by (simp add: tk_weight_def)
  show ?case
  proof (cases "c = ''>''")
    case True
    with "1.prems" t1 c have "t' = t1"
      by (subst (asm) getuntil.simps) (auto split: if_splits)
    with w show ?thesis by simp
  next
    case False
    with "1.prems" t1 c have "getuntil src t1 (result @ c) = Inr (name, t')"
      by (subst (asm) getuntil.simps) simp
    from "1.IH" [OF t1 c False this] w show ?thesis by simp
  qed
qed

definition tk_match :: "string \<Rightarrow> tk \<Rightarrow> string \<Rightarrow> error + tk option" where
  \<comment> \<open>\<^verbatim>\<open>Tokenizer.match(char)\<close>: the state after the token when it is the next one\<close>
  "tk_match src t ch =
     (if fst t = Some ch
      then (case tk_next src (snd t) of Inl e \<Rightarrow> Inl e | Inr t' \<Rightarrow> Inr (Some t'))
      else Inr None)"

definition is_octdigit :: "char \<Rightarrow> bool" where
  "is_octdigit c = in_range CHR ''0'' CHR ''7'' c"

definition digit_val :: "char \<Rightarrow> nat" where
  "digit_val c = code c - code CHR ''0''"

definition int_of :: "nat \<Rightarrow> string \<Rightarrow> nat" where
  \<comment> \<open>\<^verbatim>\<open>int(s, base)\<close> of a string of digits\<close>
  "int_of base s = foldl (\<lambda>n c. n * base + digit_val c) 0 s"

definition next_in :: "(char \<Rightarrow> bool) \<Rightarrow> tk \<Rightarrow> bool" where
  \<comment> \<open>\<^verbatim>\<open>s.next in DIGITS\<close>: the next token is one character of the set\<close>
  "next_in P t = (case fst t of Some [c] \<Rightarrow> P c | _ \<Rightarrow> False)"

definition hex_digit :: "nat \<Rightarrow> char" where
  "hex_digit d = (if d < 10 then digit_char d else char_of (code CHR ''a'' + (d - 10)))"

definition is_printable :: "char \<Rightarrow> bool" where
  \<comment> \<open>\<^verbatim>\<open>str.isprintable()\<close> on one character\<close>
  "is_printable c =
     (\<not> in_range CHR 0x00 CHR 0x1F c \<and> \<not> in_range CHR 0x7F CHR 0xA0 c \<and> c \<noteq> CHR 0xAD)"

definition repr_char :: "char \<Rightarrow> char \<Rightarrow> string" where
  "repr_char quote c =
     (if c = quote \<or> c = backslash then [backslash, c]
      else if c = CHR 0x09 then [backslash, CHR ''t'']
      else if c = CHR 0x0A then [backslash, CHR ''n'']
      else if c = CHR 0x0D then [backslash, CHR ''r'']
      else if is_printable c then [c]
      else [backslash, CHR ''x'', hex_digit (code c div 16), hex_digit (code c mod 16)])"

definition repr :: "string \<Rightarrow> string" where
  \<comment> \<open>\<^verbatim>\<open>repr(s)\<close>, also \<^verbatim>\<open>'%r' % s\<close>\<close>
  "repr s =
     (let quote = (if CHR 0x27 \<in> set s \<and> CHR 0x22 \<notin> set s then CHR 0x22 else CHR 0x27)
      in quote # concat (map (repr_char quote) s) @ [quote])"

definition is_xid_start :: "char \<Rightarrow> bool" where
  "is_xid_start c =
     (is_lower_ascii c \<or> is_upper_ascii c
      \<or> c \<in> set [CHR 0xAA, CHR 0xB5, CHR 0xBA]
      \<or> (in_range CHR 0xC0 CHR 0xFF c \<and> c \<noteq> CHR 0xD7 \<and> c \<noteq> CHR 0xF7))"

definition is_xid_continue :: "char \<Rightarrow> bool" where
  "is_xid_continue c = (is_xid_start c \<or> is_digit c \<or> c = CHR ''_'' \<or> c = CHR 0xB7)"

definition isidentifier :: "string \<Rightarrow> bool" where
  \<comment> \<open>\<^verbatim>\<open>str.isidentifier()\<close>\<close>
  "isidentifier s =
     (case s of
        [] \<Rightarrow> False
      | c # cs \<Rightarrow> (is_xid_start c \<or> c = CHR ''_'') \<and> list_all is_xid_continue cs)"

definition escapes :: "(char \<times> char) list" where
  \<comment> \<open>\<^verbatim>\<open>ESCAPES\<close>: the letter after the backslash and the character it stands for\<close>
  "escapes =
     [(CHR ''a'', CHR 0x07), (CHR ''b'', CHR 0x08), (CHR ''f'', CHR 0x0C),
      (CHR ''n'', CHR 0x0A), (CHR ''r'', CHR 0x0D), (CHR ''t'', CHR 0x09),
      (CHR ''v'', CHR 0x0B), (backslash, backslash)]"

definition group_ref :: "string \<Rightarrow> tk \<Rightarrow> error + tk" where
  \<comment> \<open>the branch \<^verbatim>\<open>c == "g"\<close>: the state after the reference when it is to group 0\<close>
  "group_ref src t1 =
     (case tk_match src t1 ''<'' of
        Inl e \<Rightarrow> Inl e
      | Inr None \<Rightarrow> Inl (tk_error src t1 ''missing <'' 0)
      | Inr (Some t2) \<Rightarrow>
          (case getuntil src t2 [] of
             Inl e \<Rightarrow> Inl e
           | Inr (name, t3) \<Rightarrow>
               if \<not> list_all is_digit name
               then (if \<not> isidentifier name
                     then Inl (tk_error src t3 (''bad character in group name '' @ repr name)
                                 (length name + 1))
                     else Inl (IndexError (''unknown group name '' @ repr name)))
               else if 0 < int_of 10 name
               then Inl (tk_error src t3
                           (''invalid group reference '' @ str_nat (int_of 10 name))
                           (length name + 1))
               else Inr t3))"

definition octal0 :: "string \<Rightarrow> string \<Rightarrow> tk \<Rightarrow> error + (char \<times> tk)" where
  \<comment> \<open>the branch \<^verbatim>\<open>c == "0"\<close>: up to two more octal digits\<close>
  "octal0 src this t1 =
     (if next_in is_octdigit t1
      then (case tk_next src (snd t1) of
              Inl e \<Rightarrow> Inl e
            | Inr t2 \<Rightarrow>
                (let this2 = this @ the (fst t1)
                 in if next_in is_octdigit t2
                    then (case tk_next src (snd t2) of
                            Inl e \<Rightarrow> Inl e
                          | Inr t3 \<Rightarrow>
                              Inr (char_of (int_of 8 (tl (this2 @ the (fst t2))) mod 256), t3))
                    else Inr (char_of (int_of 8 (tl this2) mod 256), t2)))
      else Inr (char_of (int_of 8 (tl this) mod 256), t1))"

definition digits19 :: "string \<Rightarrow> string \<Rightarrow> tk \<Rightarrow> error + (char \<times> tk)" where
  \<comment> \<open>the branch \<^verbatim>\<open>c in DIGITS\<close>: an octal escape of three digits, else a reference to a
      group, which a pattern without groups does not have\<close>
  "digits19 src this t1 =
     (if next_in is_digit t1
      then (case tk_next src (snd t1) of
              Inl e \<Rightarrow> Inl e
            | Inr t2 \<Rightarrow>
                (let this2 = this @ the (fst t1)
                 in if is_octdigit (this2 ! 1) \<and> is_octdigit (this2 ! 2) \<and> next_in is_octdigit t2
                    then (case tk_next src (snd t2) of
                            Inl e \<Rightarrow> Inl e
                          | Inr t3 \<Rightarrow>
                              (let this3 = this2 @ the (fst t2); c = int_of 8 (tl this3)
                               in if 255 < c
                                  then Inl (tk_error src t3
                                         (''octal escape value '' @ this3 @
                                          '' outside of range 0-0o377'') (length this3))
                                  else Inr (char_of c, t3)))
                    else Inl (tk_error src t2
                           (''invalid group reference '' @ str_nat (int_of 10 (tl this2)))
                           (length this2 - 1))))
      else Inl (tk_error src t1
             (''invalid group reference '' @ str_nat (int_of 10 (tl this)))
             (length this - 1)))"

lemma tk_match_weight: "tk_match src t ch = Inr (Some t') \<Longrightarrow> tk_weight t' < tk_weight t"
  by (cases t) (auto simp: tk_match_def tk_weight_def split: if_splits sum.splits
      dest!: tk_next_weight)

lemma group_ref_weight: "group_ref src t = Inr t' \<Longrightarrow> tk_weight t' < tk_weight t"
  by (auto simp: group_ref_def split: sum.splits option.splits if_splits
      dest!: tk_match_weight getuntil_weight)

lemma next_in_weight:
  "next_in P t \<Longrightarrow> tk_next src (snd t) = Inr t' \<Longrightarrow> tk_weight t' < tk_weight t"
  by (cases t) (auto simp: next_in_def tk_weight_def split: option.splits list.splits
      dest!: tk_next_weight)

lemma octal0_weight: "octal0 src this t = Inr (x, t') \<Longrightarrow> tk_weight t' \<le> tk_weight t"
  by (fastforce simp: octal0_def Let_def split: if_splits sum.splits dest: next_in_weight)

lemma digits19_weight: "digits19 src this t = Inr (x, t') \<Longrightarrow> tk_weight t' \<le> tk_weight t"
  by (fastforce simp: digits19_def Let_def split: if_splits sum.splits dest: next_in_weight)

function tpl_loop :: "string \<Rightarrow> tk \<Rightarrow> tpl list \<Rightarrow> error + tpl list" where
  \<comment> \<open>the loop of \<^verbatim>\<open>parse_template\<close>\<close>
  "tpl_loop src (None, rest) acc = Inr acc"
| "tpl_loop src (Some this, rest) acc =
     (case tk_next src rest of
        Inl e \<Rightarrow> Inl e
      | Inr t1 \<Rightarrow>
          if hd this = backslash
          then (let c = this ! 1
                in if c = CHR ''g''
                   then (case group_ref src t1 of
                           Inl e \<Rightarrow> Inl e
                         | Inr t3 \<Rightarrow> tpl_loop src t3 (acc @ [Group0]))
                   else if c = CHR ''0''
                   then (case octal0 src this t1 of
                           Inl e \<Rightarrow> Inl e
                         | Inr (x, t3) \<Rightarrow> tpl_loop src t3 (acc @ [Lit [x]]))
                   else if is_digit c
                   then (case digits19 src this t1 of
                           Inl e \<Rightarrow> Inl e
                         | Inr (x, t3) \<Rightarrow> tpl_loop src t3 (acc @ [Lit [x]]))
                   else (case map_of escapes c of
                           Some x \<Rightarrow> tpl_loop src t1 (acc @ [Lit [x]])
                         | None \<Rightarrow>
                             if is_lower_ascii c \<or> is_upper_ascii c
                             then Inl (tk_error src t1 (''bad escape '' @ this) (length this))
                             else tpl_loop src t1 (acc @ [Lit this])))
          else tpl_loop src t1 (acc @ [Lit this]))"
  by pat_completeness auto
termination
  by (relation "measure (\<lambda>(src, t, acc). tk_weight t)")
    (auto dest!: tk_next_weight group_ref_weight octal0_weight digits19_weight
      simp: tk_weight_def)

declare tpl_loop.simps [simp del]

definition parse_template :: "string \<Rightarrow> error + tpl list" where
  "parse_template src =
     (case tk_next src src of Inl e \<Rightarrow> Inl e | Inr t \<Rightarrow> tpl_loop src t [])"

definition compile_template :: "string \<Rightarrow> error + tpl list" where
  "compile_template repl =
     (if backslash \<notin> set repl then Inr [Lit repl] else parse_template repl)"

fun expand :: "string \<Rightarrow> tpl \<Rightarrow> string" where
  "expand m (Lit s) = s"
| "expand m Group0 = m"

fun fill :: "tpl list \<Rightarrow> piece \<Rightarrow> string" where
  "fill t (Gap c) = [c]"
| "fill t (Hit m) = concat (map (expand m) t)"

definition sub :: "rx \<Rightarrow> string \<Rightarrow> string \<Rightarrow> error + string" where
  \<comment> \<open>\<^verbatim>\<open>re.sub(r, repl, s)\<close>\<close>
  "sub r repl s =
     (case compile_template repl of
        Inl e \<Rightarrow> Inl e
      | Inr t \<Rightarrow> Inr (concat (map (fill t) (scan r False None s))))"

section \<open>Paths\<close>

text \<open>
  \<^verbatim>\<open>os.path\<close> on a POSIX system. \<open>cwd\<close> is the working directory of the process.
\<close>

definition path_join :: "string \<Rightarrow> string \<Rightarrow> string" where
  \<comment> \<open>\<^verbatim>\<open>os.path.join(a, b)\<close>\<close>
  "path_join a b =
     (if startswith b ''/'' then b
      else if a = [] \<or> endswith a ''/'' then a @ b
      else a @ ''/'' @ b)"

definition norm_comp :: "nat \<Rightarrow> string list \<Rightarrow> string \<Rightarrow> string list" where
  \<comment> \<open>one round of the loop of \<^verbatim>\<open>normpath\<close> over the components\<close>
  "norm_comp initial_slashes new_comps c =
     (if c = [] \<or> c = ''.'' then new_comps
      else if c \<noteq> ''..'' \<or> (initial_slashes = 0 \<and> new_comps = [])
              \<or> (new_comps \<noteq> [] \<and> last new_comps = ''..'')
        then new_comps @ [c]
      else if new_comps \<noteq> [] then butlast new_comps
      else new_comps)"

definition normpath :: "string \<Rightarrow> string" where
  "normpath path =
     (if path = [] then ''.''
      else
        let initial_slashes =
              (if startswith path ''/''
               then (if startswith path ''//'' \<and> \<not> startswith path ''///'' then 2 else 1)
               else 0);
            comps = foldl (norm_comp initial_slashes) [] (split CHR ''/'' path);
            p = replicate initial_slashes CHR ''/'' @ join ''/'' comps
        in if p = [] then ''.'' else p)"

definition abspath :: "string \<Rightarrow> string \<Rightarrow> string" where
  "abspath cwd path =
     normpath (if startswith path ''/'' then path else path_join cwd path)"

definition path_list :: "string \<Rightarrow> string list" where
  \<comment> \<open>the components of an absolute path, as \<^verbatim>\<open>relpath\<close> splits it\<close>
  "path_list p =
     (let tail = dropWhile (\<lambda>c. c = CHR ''/'') p
      in if tail = [] then [] else split CHR ''/'' tail)"

definition relpath :: "string \<Rightarrow> string \<Rightarrow> string \<Rightarrow> error + string" where
  \<comment> \<open>\<^verbatim>\<open>os.path.relpath(path, start)\<close>\<close>
  "relpath cwd path start =
     (if path = [] then Inl (ValueError ''no path specified'')
      else
        let start_list = path_list (abspath cwd start);
            plist = path_list (abspath cwd path);
            i = length (longest_common_prefix start_list plist);
            rel_list = replicate (length start_list - i) ''..'' @ drop i plist
        in Inr (if rel_list = [] then ''.'' else join ''/'' rel_list))"

section \<open>The file system and the console\<close>

text \<open>
  A directory as \<^verbatim>\<open>os.walk\<close> lists it: the directories it descends into, by name, and
  the names of the other entries. The rest of the world: what reading a path as UTF-8
  text yields (the text, or the exception), the exception that opening a path for writing
  raises, if any, and the lines printed so far.
\<close>

datatype dir = Dir (subdirs: "(string \<times> dir) list") (filenames: "string list")

record world =
  cwd :: string
  tree :: dir
  content :: "string \<Rightarrow> error + string"
  readonly :: "string \<Rightarrow> error option"
  stdout :: "string list"

definition read_file :: "world \<Rightarrow> string \<Rightarrow> error + string" where
  \<comment> \<open>\<^verbatim>\<open>open(path, 'r', encoding='utf-8')\<close> and \<^verbatim>\<open>f.read()\<close>\<close>
  "read_file w path = content w path"

definition write_file :: "world \<Rightarrow> string \<Rightarrow> string \<Rightarrow> error + world" where
  \<comment> \<open>\<^verbatim>\<open>open(path, 'w', encoding='utf-8')\<close> and \<^verbatim>\<open>f.write(text)\<close>\<close>
  "write_file w path text =
     (case readonly w path of
        Some e \<Rightarrow> Inl e
      | None \<Rightarrow> Inr (w\<lparr>content := (content w)(path := Inr text)\<rparr>))"

definition print :: "string \<Rightarrow> world \<Rightarrow> world" where
  "print line w = w\<lparr>stdout := stdout w @ [line]\<rparr>"

section \<open>The indexer\<close>

text \<open>
  \<^verbatim>\<open>markdown.markdown\<close> and \<^verbatim>\<open>BeautifulSoup\<close> are libraries outside the repository. The
  indexer takes from them, for a text, the heading elements of the rendered document in
  document order, each with its tag and its inner text; this is the parameter \<open>md\<close> of
  the functions below, which may also raise.
\<close>

datatype tag = h1 | h2 | h3 | h4 | h5 | h6

fun level :: "tag \<Rightarrow> int" where
  \<comment> \<open>\<^verbatim>\<open>int(heading.name[1])\<close>\<close>
  "level h1 = 1"
| "level h2 = 2"
| "level h3 = 3"
| "level h4 = 4"
| "level h5 = 5"
| "level h6 = 6"

type_synonym renderer = "string \<Rightarrow> error + (tag \<times> string) list"

type_synonym heading = "int \<times> string \<times> string"

text \<open>
  A \<^verbatim>\<open>defaultdict\<close> is an association list in the order in which the keys were added.
  Reading a missing key adds it with the default.
\<close>

definition lookup :: "'v \<Rightarrow> (string \<times> 'v) list \<Rightarrow> string \<Rightarrow> 'v" where
  "lookup dflt d k = (case map_of d k of Some v \<Rightarrow> v | None \<Rightarrow> dflt)"

definition touch :: "'v \<Rightarrow> string \<Rightarrow> (string \<times> 'v) list \<Rightarrow> (string \<times> 'v) list" where
  "touch dflt k d = (case map_of d k of Some v \<Rightarrow> d | None \<Rightarrow> d @ [(k, dflt)])"

record indexer =
  root_dir :: string
  terms :: "(string \<times> string set) list"
  acronyms :: "(string \<times> string set) list"
  toc :: "(string \<times> heading list) list"

definition init :: "string \<Rightarrow> indexer" where
  \<comment> \<open>\<^verbatim>\<open>DocIndexer(root_dir)\<close>\<close>
  "init root = \<lparr>root_dir = root, terms = [], acronyms = [], toc = []\<rparr>"

fun walk :: "string \<Rightarrow> dir \<Rightarrow> (string \<times> string list \<times> string list) list"
  and walk_dirs :: "string \<Rightarrow> (string \<times> dir) list \<Rightarrow> (string \<times> string list \<times> string list) list"
where
  \<comment> \<open>\<^verbatim>\<open>os.walk(top)\<close>\<close>
  "walk dirpath (Dir subs files) = (dirpath, map fst subs, files) # walk_dirs dirpath subs"
| "walk_dirs dirpath [] = []"
| "walk_dirs dirpath ((name, d) # subs) = walk (path_join dirpath name) d @ walk_dirs dirpath subs"

definition is_markdown :: "string \<Rightarrow> bool" where
  \<comment> \<open>\<^verbatim>\<open>file.endswith(('.md', '.markdown'))\<close>\<close>
  "is_markdown file = (endswith file ''.md'' \<or> endswith file ''.markdown'')"

definition find_markdown_files :: "indexer \<Rightarrow> world \<Rightarrow> string list" where
  "find_markdown_files ix w =
     concat (map (\<lambda>(root, dirs, files). map (path_join root) (filter is_markdown files))
                 (walk (root_dir ix) (tree w)))"

definition entry :: "tag \<times> string \<Rightarrow> heading" where
  "entry h = (let text = strip (snd h) in (level (fst h), text, anchor text))"

definition append_heading :: "string \<Rightarrow> (string \<times> heading list) list \<Rightarrow> tag \<times> string
    \<Rightarrow> (string \<times> heading list) list" where
  \<comment> \<open>\<^verbatim>\<open>self.toc[file_path].append((level, text, anchor))\<close>\<close>
  "append_heading file_path t h = AList.update file_path (lookup [] t file_path @ [entry h]) t"

definition extract_headings :: "renderer \<Rightarrow> string \<Rightarrow> string \<Rightarrow> indexer \<Rightarrow> error + indexer" where
  "extract_headings md text file_path ix =
     (case md text of
        Inl e \<Rightarrow> Inl e
      | Inr headings \<Rightarrow> Inr (ix\<lparr>toc := foldl (append_heading file_path) (toc ix) headings\<rparr>))"

definition upper :: "(char \<times> char) list" where
  "upper = [(CHR ''A'', CHR ''Z'')]"

definition lower_rng :: "(char \<times> char) list" where
  "lower_rng = [(CHR ''a'', CHR ''z'')]"

definition words_joined :: "char \<Rightarrow> rx" where
  \<comment> \<open>\<^verbatim>\<open>[a-z]+_[a-z]+(?:_[a-z]+)*\<close> for the joining character \<^verbatim>\<open>_\<close>\<close>
  "words_joined c =
     Seq (plus (Cls (In lower_rng)))
       (Seq (chr c)
         (Seq (plus (Cls (In lower_rng)))
           (Star (Seq (chr c) (plus (Cls (In lower_rng)))))))"

definition camel_case :: rx where
  \<comment> \<open>\<^verbatim>\<open>[A-Z][a-z]+[A-Z][a-z]+[a-zA-Z]*\<close>\<close>
  "camel_case =
     Seq (Cls (In upper))
       (Seq (plus (Cls (In lower_rng)))
         (Seq (Cls (In upper))
           (Seq (plus (Cls (In lower_rng)))
             (Star (Cls (In (lower_rng @ upper)))))))"

definition term_pattern :: rx where
  \<comment> \<open>\<^verbatim>\<open>\b(?:[A-Z][a-z]+[A-Z][a-z]+[a-zA-Z]*|[a-z]+_[a-z]+(?:_[a-z]+)*|[a-z]+-[a-z]+(?:-[a-z]+)*)\b\<close>\<close>
  "term_pattern =
     Seq WordB
       (Seq (Alt camel_case (Alt (words_joined CHR ''_'') (words_joined CHR ''-''))) WordB)"

definition acronym_pattern :: rx where
  \<comment> \<open>\<^verbatim>\<open>\b[A-Z]{2,}s?\b\<close>\<close>
  "acronym_pattern =
     Seq WordB (Seq (at_least2 (Cls (In upper))) (Seq (opt (chr CHR ''s'')) WordB))"

definition add_file :: "string \<Rightarrow> (string \<times> string set) list \<Rightarrow> string
    \<Rightarrow> (string \<times> string set) list" where
  \<comment> \<open>\<^verbatim>\<open>self.terms[term].add(file_path)\<close>\<close>
  "add_file file_path d k = AList.update k (insert file_path (lookup {} d k)) d"

definition extract_terms_and_acronyms :: "string \<Rightarrow> string \<Rightarrow> indexer \<Rightarrow> indexer" where
  "extract_terms_and_acronyms text file_path ix =
     ix\<lparr>terms := foldl (add_file file_path) (terms ix) (findall term_pattern text),
        acronyms := foldl (add_file file_path) (acronyms ix) (findall acronym_pattern text)\<rparr>"

definition toc_pattern :: rx where
  \<comment> \<open>\<^verbatim>\<open>## Table of Contents\n(?:[ \t]*-[^\n]*\n)*\n\<close>\<close>
  "toc_pattern =
     Seq (lit ''## Table of Contents\<newline>'')
       (Seq (Star (Seq (Star (Cls (In [(CHR '' '', CHR '' ''), (CHR 0x09, CHR 0x09)])))
                    (Seq (chr CHR ''-'')
                      (Seq (Star (Cls (NotIn [(newline, newline)]))) (chr newline)))))
            (chr newline))"

definition heading_pattern :: rx where
  \<comment> \<open>\<^verbatim>\<open>^#[^#].*$\<close> under \<^verbatim>\<open>re.MULTILINE\<close>\<close>
  "heading_pattern =
     Seq Bol (Seq (chr CHR ''#'') (Seq (Cls (NotIn [(CHR ''#'', CHR ''#'')])) (Seq (Star dot) Eol)))"

definition indent :: "int \<Rightarrow> string" where
  \<comment> \<open>\<^verbatim>\<open>"  " * (level - 1)\<close>\<close>
  "indent lvl = concat (replicate (nat (lvl - 1)) ''  '')"

definition toc_line :: "heading \<Rightarrow> string" where
  \<comment> \<open>\<^verbatim>\<open>f"{indent}- [{text}](#{anchor})\n"\<close>\<close>
  "toc_line h =
     (case h of (lvl, text, anc) \<Rightarrow>
        indent lvl @ ''- ['' @ text @ ''](#'' @ anc @ '')\<newline>'')"

definition toc_content :: "heading list \<Rightarrow> string" where
  "toc_content headings = concat (''## Table of Contents\<newline>'' # map toc_line headings)"

definition new_content :: "heading list \<Rightarrow> string \<Rightarrow> error + string" where
  \<comment> \<open>the text that \<^verbatim>\<open>update_file_toc\<close> writes\<close>
  "new_content headings text =
     (if search toc_pattern text \<noteq> None
      then sub toc_pattern (toc_content headings @ ''\<newline>'') text
      else (case search heading_pattern text of
              Some (start, pos) \<Rightarrow>
                Inr (take pos text @ ''\<newline>\<newline>'' @ toc_content headings @ ''\<newline>''
                     @ drop pos text)
            | None \<Rightarrow> Inr (toc_content headings @ ''\<newline>'' @ text)))"

text \<open>
  A method that may raise returns the exception, if any, beside the state it leaves.
\<close>

definition update_file_toc :: "string \<Rightarrow> string \<Rightarrow> indexer \<times> world
    \<Rightarrow> error option \<times> indexer \<times> world" where
  "update_file_toc file_path text st =
     (case st of (ix, w) \<Rightarrow>
        (case relpath (cwd w) file_path (root_dir ix) of
           Inl e \<Rightarrow> (Some e, ix, w)
         | Inr rel \<Rightarrow>
             let ix' = ix\<lparr>toc := touch [] rel (toc ix)\<rparr>
             in (case new_content (lookup [] (toc ix') rel) text of
                   Inl e \<Rightarrow> (Some e, ix', w)
                 | Inr new \<Rightarrow>
                     (case write_file w file_path new of
                        Inl e \<Rightarrow> (Some e, ix', w)
                      | Inr w' \<Rightarrow> (None, ix', w')))))"

definition failed :: "string \<Rightarrow> error \<Rightarrow> world \<Rightarrow> world" where
  \<comment> \<open>\<^verbatim>\<open>print(f"Error processing {file_path}: {str(e)}")\<close>\<close>
  "failed file_path e w = print (''Error processing '' @ file_path @ '': '' @ str_error e) w"

definition process_file :: "renderer \<Rightarrow> string \<Rightarrow> indexer \<times> world \<Rightarrow> indexer \<times> world" where
  "process_file md file_path st =
     (case st of (ix, w) \<Rightarrow>
        (case read_file w file_path of
           Inl e \<Rightarrow> (ix, failed file_path e w)
         | Inr text \<Rightarrow>
             (case relpath (cwd w) file_path (root_dir ix) of
                Inl e \<Rightarrow> (ix, failed file_path e w)
              | Inr rel_path \<Rightarrow>
                  (case extract_headings md text rel_path ix of
                     Inl e \<Rightarrow> (ix, failed file_path e w)
                   | Inr ix1 \<Rightarrow>
                       let ix2 = extract_terms_and_acronyms text rel_path ix1;
                           ix3 = ix2\<lparr>toc := touch [] rel_path (toc ix2)\<rparr>
                       in if lookup [] (toc ix3) rel_path \<noteq> []
                          then (case update_file_toc file_path text (ix3, w) of
                                  (Some e, ix4, w4) \<Rightarrow> (ix4, failed file_path e w4)
                                | (None, ix4, w4) \<Rightarrow> (ix4, w4))
                          else (ix3, w)))))"

definition index_heading :: "string \<Rightarrow> heading \<Rightarrow> string" where
  \<comment> \<open>\<^verbatim>\<open>f"{indent}- [{text}]({file_path}#{anchor})\n"\<close>\<close>
  "index_heading file_path h =
     (case h of (lvl, text, anc) \<Rightarrow>
        indent lvl @ ''- ['' @ text @ '']('' @ file_path @ ''#'' @ anc @ '')\<newline>'')"

definition index_file :: "string \<times> heading list \<Rightarrow> string" where
  "index_file item =
     (case item of (file_path, headings) \<Rightarrow>
        ''### '' @ file_path @ ''\<newline>\<newline>''
        @ concat (map (index_heading file_path) headings) @ ''\<newline>'')"

definition index_link :: "string \<Rightarrow> string" where
  \<comment> \<open>\<^verbatim>\<open>f"  - [{file_path}]({file_path})\n"\<close>\<close>
  "index_link file_path = ''  - ['' @ file_path @ '']('' @ file_path @ '')\<newline>''"

definition index_term :: "string \<times> string set \<Rightarrow> string" where
  "index_term item =
     (case item of (term, files) \<Rightarrow>
        ''- **'' @ term @ ''**\<newline>''
        @ concat (map index_link (sorted_list_of_set files)))"

definition index_content :: "indexer \<Rightarrow> string" where
  \<comment> \<open>the text that \<^verbatim>\<open>generate_index\<close> writes\<close>
  "index_content ix =
     ''# Documentation Index\<newline>\<newline>''
     @ ''## Files\<newline>\<newline>''
     @ concat (map index_file (sort_key fst (toc ix)))
     @ ''## Technical Terms\<newline>\<newline>''
     @ concat (map index_term (sort_key fst (terms ix)))
     @ ''\<newline>''
     @ ''## Acronyms\<newline>\<newline>''
     @ concat (map index_term (sort_key fst (acronyms ix)))"

definition generate_index :: "indexer \<Rightarrow> world \<Rightarrow> error + world" where
  "generate_index ix w = write_file w (path_join (root_dir ix) ''INDEX.md'') (index_content ix)"

definition process_all :: "renderer \<Rightarrow> string list \<Rightarrow> indexer \<times> world \<Rightarrow> indexer \<times> world" where
  \<comment> \<open>the loop of \<^verbatim>\<open>main\<close> over the files found\<close>
  "process_all md files st =
     foldl (\<lambda>s file_path.
              process_file md file_path (fst s, print (''Processing '' @ file_path) (snd s)))
           st files"

definition main :: "renderer \<Rightarrow> world \<Rightarrow> error option \<times> indexer \<times> world" where
  "main md w0 =
     (let indexer = init ''.'';
          w1 = print ''Finding markdown files...'' w0;
          markdown_files = find_markdown_files indexer w1;
          w2 = print (''Processing '' @ str_nat (length markdown_files) @ '' files...'') w1;
          (ix, w3) = process_all md markdown_files (indexer, w2);
          w4 = print ''Generating main index...'' w3
      in (case generate_index ix w4 of
            Inl e \<Rightarrow> (Some e, ix, w4)
          | Inr w5 \<Rightarrow>
              (None, ix,
               print ''Done! Check INDEX.md for the complete documentation index.'' w5)))"

section \<open>A renderer of headings\<close>

text \<open>
  Modelled from the spec: the Markdown renderer and the query over its output are
  libraries that are not part of the repository. The specification asks of them the
  heading elements only and allows a parser of headings alone. \<open>atx_headings\<close> is such a
  parser: a line that starts with one to six \<^verbatim>\<open>#\<close> is a heading of that level, its text
  what follows them on the line without the closing \<^verbatim>\<open>#\<close>s; no other line is a heading,
  and the text is taken as it stands. It stands for the renderer where a concrete text is
  processed; the general statements below hold for every renderer.
\<close>

definition tag_of :: "nat \<Rightarrow> tag" where
  "tag_of n = (if n \<le> 1 then h1 else if n = 2 then h2 else if n = 3 then h3
               else if n = 4 then h4 else if n = 5 then h5 else h6)"

definition atx_line :: "string \<Rightarrow> (tag \<times> string) list" where
  "atx_line l =
     (let n = min 6 (length (takeWhile (\<lambda>c. c = CHR ''#'') l))
      in if n = 0 then []
         else [(tag_of n, rev (dropWhile (\<lambda>c. c = CHR ''#'') (rev (drop n l))))])"

definition atx_headings :: renderer where
  "atx_headings text = Inr (concat (map atx_line (split newline text)))"

section \<open>Notions of the specification\<close>

text \<open>
  \<open>file_under root d path name\<close>: somewhere in the directory \<open>d\<close>, reached as \<open>root\<close>,
  there is a file called \<open>name\<close>, and \<open>path\<close> is its path. Every directory is descended
  into, whatever its name.
\<close>

inductive file_under :: "string \<Rightarrow> dir \<Rightarrow> string \<Rightarrow> string \<Rightarrow> bool" where
  here: "name \<in> set files \<Longrightarrow> file_under root (Dir subs files) (path_join root name) name"
| below: "(sd, d) \<in> set subs \<Longrightarrow> file_under (path_join root sd) d path name
    \<Longrightarrow> file_under root (Dir subs files) path name"

inductive_simps file_under_Dir: "file_under root (Dir subs files) path name"

definition listed :: "(string \<times> string list \<times> string list) list \<Rightarrow> string list" where
  "listed entries =
     concat (map (\<lambda>(root, dirs, files). map (path_join root) (filter is_markdown files)) entries)"

text \<open>
  \<open>indexed md w root f\<close>: the file \<open>f\<close> was read and its headings were extracted; the
  result is its path relative to the root, its text and its heading elements.
  \<open>recorded doc rel hs ix\<close> is the indexer once the headings \<open>hs\<close> and the terms and
  acronyms of the text \<open>doc\<close> are recorded for the file \<open>rel\<close>.
\<close>

definition indexed :: "renderer \<Rightarrow> world \<Rightarrow> string \<Rightarrow> string
    \<Rightarrow> (string \<times> string \<times> (tag \<times> string) list) option" where
  "indexed md w root f =
     (case read_file w f of
        Inl e \<Rightarrow> None
      | Inr doc \<Rightarrow>
          (case relpath (cwd w) f root of
             Inl e \<Rightarrow> None
           | Inr rel \<Rightarrow>
               (case md doc of Inl e \<Rightarrow> None | Inr hs \<Rightarrow> Some (rel, doc, hs))))"

definition recorded :: "string \<Rightarrow> string \<Rightarrow> (tag \<times> string) list \<Rightarrow> indexer \<Rightarrow> indexer" where
  "recorded doc rel hs ix =
     ix\<lparr>toc := touch [] rel (foldl (append_heading rel) (toc ix) hs),
        terms := foldl (add_file rel) (terms ix) (findall term_pattern doc),
        acronyms := foldl (add_file rel) (acronyms ix) (findall acronym_pattern doc)\<rparr>"

text \<open>
  One round of the loop of \<^verbatim>\<open>main\<close>: the line that names the file, then the file.
\<close>

definition step :: "renderer \<Rightarrow> indexer \<times> world \<Rightarrow> string \<Rightarrow> indexer \<times> world" where
  "step md st f = process_file md f (fst st, print (''Processing '' @ f) (snd st))"

text \<open>
  \<open>merged m S\<close>: the entry \<open>m\<close> of a term after the files \<open>S\<close> were added to it.
  \<open>matches r md w root f k\<close>: the relative path of \<open>f\<close> when the pattern \<open>r\<close> matched \<open>k\<close>
  in its text, and \<open>matched r md w root files k\<close>: the files among \<open>files\<close> in which it did.
\<close>

definition merged :: "string set option \<Rightarrow> string set \<Rightarrow> string set option" where
  "merged m S = (if S = {} then m else Some ((case m of None \<Rightarrow> {} | Some F \<Rightarrow> F) \<union> S))"

definition matches :: "rx \<Rightarrow> renderer \<Rightarrow> world \<Rightarrow> string \<Rightarrow> string \<Rightarrow> string \<Rightarrow> string set" where
  "matches r md w root f k =
     (case indexed md w root f of
        None \<Rightarrow> {}
      | Some (rel, doc, hs) \<Rightarrow> if k \<in> set (findall r doc) then {rel} else {})"

definition matched :: "rx \<Rightarrow> renderer \<Rightarrow> world \<Rightarrow> string \<Rightarrow> string list \<Rightarrow> string \<Rightarrow> string set" where
  "matched r md w root files k =
     {rel. \<exists>f doc hs. f \<in> set files \<and> indexed md w root f = Some (rel, doc, hs)
        \<and> k \<in> set (findall r doc)}"

text \<open>
  The entry of a term in the index, with its files as the list in which they are written,
  and a dictionary of terms with the files of each term as a sorted list.
\<close>

definition index_entry :: "string \<times> string list \<Rightarrow> string" where
  "index_entry item =
     (case item of (k, files) \<Rightarrow>
        ''- **'' @ k @ ''**\<newline>'' @ concat (map index_link files))"

definition file_lists :: "(string \<times> string set) list \<Rightarrow> (string \<times> string list) list" where
  "file_lists d = map (\<lambda>(k, F). (k, sorted_list_of_set F)) d"

text \<open>
  The lines of the console that name a file being processed.
\<close>

definition announced :: "string list \<Rightarrow> string list" where
  "announced ls = filter (\<lambda>l. startswith l ''Processing '') ls"

section \<open>Worlds for the examples\<close>

text \<open>
  The scenario of the specification: two files in the working directory. \<open>observe\<close>
  takes, from the result of a run, the exception, the indexer and what reading the given
  paths yields afterwards.
\<close>

definition doc_a :: string where
  "doc_a = ''# Intro\<newline>\<newline>Some PYTHON_SCRIPT and camelCaseWord here.''"

definition doc_b :: string where
  "doc_b = ''## Section\<newline>\<newline>Another camelCaseWord.''"

definition scenario :: world where
  "scenario =
     \<lparr>cwd = ''/work'', tree = Dir [] [''a.md'', ''b.md''],
      content = (\<lambda>p. if p = ''./a.md'' then Inr doc_a
                     else if p = ''./b.md'' then Inr doc_b
                     else Inl (OSError ''[Errno 2] No such file or directory'')),
      readonly = (\<lambda>p. None), stdout = []\<rparr>"

definition scenario_index :: string where
  "scenario_index =
     ''# Documentation Index\<newline>\<newline>## Files\<newline>\<newline>''
     @ ''### a.md\<newline>\<newline>- [Intro](a.md#intro)\<newline>\<newline>''
     @ ''### b.md\<newline>\<newline>  - [Section](b.md#section)\<newline>\<newline>''
     @ ''## Technical Terms\<newline>\<newline>\<newline>## Acronyms\<newline>\<newline>''"

definition observe :: "string list \<Rightarrow> error option \<times> indexer \<times> world
    \<Rightarrow> error option \<times> indexer \<times> (error + string) list" where
  "observe paths r = (case r of (e, ix, w) \<Rightarrow> (e, ix, map (content w) paths))"

text \<open>
  A second world: a file without a heading, a file with one, and a file that cannot be
  read. \<open>twice\<close> is two runs over one file in succession, each by a fresh indexer: what
  reading the file yields after the first and after the second.
\<close>

definition doc_x :: string where
  "doc_x = ''Plain HeadingLevel text, HTTP.''"

definition doc_y :: string where
  "doc_y = ''# Title\<newline>\<newline>A HeadingLevel.''"

definition sample :: world where
  "sample =
     \<lparr>cwd = ''/work'', tree = Dir [] [''x.md'', ''y.md'', ''z.md''],
      content = (\<lambda>p. if p = ''./x.md'' then Inr doc_x
                     else if p = ''./y.md'' then Inr doc_y
                     else Inl (OSError ''[Errno 13] Permission denied'')),
      readonly = (\<lambda>p. None), stdout = []\<rparr>"

definition twice :: "renderer \<Rightarrow> string \<Rightarrow> string \<Rightarrow> world \<Rightarrow> (error + string) \<times> (error + string)" where
  "twice md root f w =
     (let w1 = snd (process_file md f (init root, w));
          w2 = snd (process_file md f (init root, w1))
      in (content w1 f, content w2 f))"

text \<open>
  Variants of it: every path holds a text whose heading has a backslash and which already
  has a table of contents; no path can be written; and a renderer that raises.
\<close>

definition doc_t :: string where
  "doc_t = ''# a'' @ [backslash] @ ''q\<newline>## Table of Contents\<newline>\<newline>''"

definition escaped :: world where
  "escaped = sample\<lparr>content := (\<lambda>p. Inr doc_t)\<rparr>"

definition locked :: world where
  "locked = sample\<lparr>readonly := (\<lambda>p. Some (OSError ''[Errno 30] Read-only file system''))\<rparr>"

definition broken :: renderer where
  "broken doc = Inl (RenderError ''no renderer'')"

definition bad_escape :: error where
  "bad_escape = ReError (''bad escape '' @ [backslash] @ ''q at position 25 (line 2, column 5)'')"

section \<open>The placement rule as the specification words it\<close>

text \<open>
  The specification states the placement of the table of contents by lines: a block is the
  line \<^verbatim>\<open>## Table of Contents\<close>, then lines that are list items, indented or not, then
  an empty line; a top-level heading is a line that starts with one \<^verbatim>\<open>#\<close> and then a
  character other than \<^verbatim>\<open>#\<close>. \<open>placement_claimed\<close> is that rule, with the blank lines
  around the new block as \<^verbatim>\<open>update_file_toc\<close> writes them.
\<close>

definition blank :: "char \<Rightarrow> bool" where
  "blank c = (c = CHR '' '' \<or> c = CHR 0x09)"

definition claimed_item :: "string \<Rightarrow> bool" where
  "claimed_item l = (case dropWhile blank l of [] \<Rightarrow> False | c # cs \<Rightarrow> c = CHR ''-'')"

definition claimed_heading :: "string \<Rightarrow> bool" where
  "claimed_heading l = (case l of a # b # cs \<Rightarrow> a = CHR ''#'' \<and> b \<noteq> CHR ''#'' | _ \<Rightarrow> False)"

fun claimed_replace :: "string list \<Rightarrow> string list \<Rightarrow> string list option" where
  "claimed_replace new [] = None"
| "claimed_replace new (l # ls) =
     (if l = ''## Table of Contents''
      then (case dropWhile claimed_item ls of
              [] # m # rest \<Rightarrow> Some (new @ m # rest)
            | _ \<Rightarrow> map_option ((#) l) (claimed_replace new ls))
      else map_option ((#) l) (claimed_replace new ls))"

fun claimed_insert :: "string list \<Rightarrow> string list \<Rightarrow> string list option" where
  "claimed_insert new [] = None"
| "claimed_insert new (l # ls) =
     (if claimed_heading l then Some (l # [] # new @ [] # ls)
      else map_option ((#) l) (claimed_insert new ls))"

definition placement_claimed :: "heading list \<Rightarrow> string \<Rightarrow> string" where
  "placement_claimed headings doc =
     (let new = butlast (split newline (toc_content headings @ ''\<newline>''));
          ls = split newline doc
      in join ''\<newline>''
           (case claimed_replace new ls of
              Some r \<Rightarrow> r
            | None \<Rightarrow> (case claimed_insert new ls of Some r \<Rightarrow> r | None \<Rightarrow> new @ ls)))"

section \<open>Properties\<close>

subsection \<open>Anchors\<close>

lemma replace_char: "replace [a] [b] s = map (\<lambda>c. if c = a then b else c) s"
  by (induction s) auto

lemma remove_char: "replace [a] [] s = filter (\<lambda>c. c \<noteq> a) s"
  by (induction s) auto

lemma anchor_map_filter:
  "anchor text =
     filter (\<lambda>c. c \<notin> {CHR ''.'', CHR ''('', CHR '')''})
       (map (\<lambda>c. if c = CHR '' '' then CHR ''-'' else c) (lower text))"
  by (simp add: anchor_def replace_char remove_char conj_commute conj_left_commute)

lemma anchor_example: "anchor ''Getting Started (Quickly)'' = ''getting-started-quickly''"
  by code_simp

lemma entry_anchor: "(case entry h of (lvl, text, anc) \<Rightarrow> anc = anchor text)"
  by (simp add: entry_def Let_def)

text \<open>
  Claim C3. The anchor is a function of the heading text alone: the text in lower case,
  each space replaced by a hyphen, and every \<^verbatim>\<open>.\<close>, \<^verbatim>\<open>(\<close> and \<^verbatim>\<open>)\<close> removed. The heading
  \<^verbatim>\<open>Getting Started (Quickly)\<close> has the anchor \<^verbatim>\<open>getting-started-quickly\<close>, and the anchor
  of every entry of a table of contents is the anchor of the entry's text.
\<close>

theorem anchor_derivation:
  "anchor text =
     filter (\<lambda>c. c \<notin> {CHR ''.'', CHR ''('', CHR '')''})
       (map (\<lambda>c. if c = CHR '' '' then CHR ''-'' else c) (lower text))
   \<and> anchor ''Getting Started (Quickly)'' = ''getting-started-quickly''
   \<and> (case entry h of (lvl, text, anc) \<Rightarrow> anc = anchor text)"
  by (intro conjI anchor_map_filter anchor_example entry_anchor)

subsection \<open>Finding the files\<close>

lemma endswith_suffix: "endswith s suf \<longleftrightarrow> suffix suf s"
proof
  assume "endswith s suf"
  then have "s = take (length s - length suf) s @ suf"
    by (metis append_take_drop_id endswith_def)
  then show "suffix suf s"
    by (rule suffixI)
next
  assume "suffix suf s"
  then obtain zs where "s = zs @ suf"
    by (auto simp: suffix_def)
  then show "endswith s suf"
    by (simp add: endswith_def)
qed

lemma listed_walk:
  "path \<in> set (listed (walk root d)) \<longleftrightarrow>
     (\<exists>name. file_under root d path name \<and> is_markdown name)"
  "path \<in> set (listed (walk_dirs root subs)) \<longleftrightarrow>
     (\<exists>sd d name. (sd, d) \<in> set subs \<and> file_under (path_join root sd) d path name
        \<and> is_markdown name)"
proof (induction root d and root subs rule: walk_walk_dirs.induct)
  case (1 dirpath subs files)
  then show ?case
    by (auto simp: listed_def file_under_Dir)
next
  case (2 dirpath)
  show ?case by (simp add: listed_def)
next
  case (3 dirpath name d subs)
  then show ?case
    by (auto simp: listed_def)
qed

text \<open>
  Claim C8. The paths that \<^verbatim>\<open>find_markdown_files\<close> returns are exactly the paths of the
  files anywhere under the root whose name ends in \<^verbatim>\<open>.md\<close> or \<^verbatim>\<open>.markdown\<close>; no directory
  is left out for its name.
\<close>

theorem find_markdown_files_complete:
  "path \<in> set (find_markdown_files ix w) \<longleftrightarrow>
     (\<exists>name. file_under (root_dir ix) (tree w) path name
        \<and> (suffix ''.md'' name \<or> suffix ''.markdown'' name))"
  using listed_walk(1) [of path "root_dir ix" "tree w"]
  by (simp add: find_markdown_files_def listed_def is_markdown_def endswith_suffix)

subsection \<open>Processing one file\<close>

lemma touch_idem: "touch dflt k (touch dflt k d) = touch dflt k d"
  by (auto simp: touch_def split: option.splits)

lemma map_of_touch:
  "map_of (touch dflt k d) k' =
     (if k' = k \<and> map_of d k = None then Some dflt else map_of d k')"
  by (auto simp: touch_def map_of_append map_add_def split: option.splits)

lemma lookup_touch: "lookup dflt (touch dflt k d) k' = lookup dflt d k'"
  by (simp add: lookup_def map_of_touch)

lemma process_file_none:
  assumes "indexed md w (root_dir ix) f = None"
  shows "\<exists>e. process_file md f (ix, w) = (ix, failed f e w)"
  using assms
  by (auto simp: process_file_def indexed_def extract_headings_def split: sum.splits)

lemma process_file_ok:
  assumes "indexed md w (root_dir ix) f = Some (rel, doc, hs)"
  shows "process_file md f (ix, w) =
     (let ix3 = recorded doc rel hs ix
      in if lookup [] (toc ix3) rel = [] then (ix3, w)
         else (case new_content (lookup [] (toc ix3) rel) doc of
                 Inl e \<Rightarrow> (ix3, failed f e w)
               | Inr new \<Rightarrow>
                   (case write_file w f new of
                      Inl e \<Rightarrow> (ix3, failed f e w)
                    | Inr w' \<Rightarrow> (ix3, w'))))"
  using assms
  by (auto simp: process_file_def indexed_def extract_headings_def extract_terms_and_acronyms_def
      update_file_toc_def recorded_def Let_def touch_idem lookup_touch
      split: sum.splits option.splits)

lemma write_file_frame:
  "write_file w f new = Inr w' \<Longrightarrow>
     cwd w' = cwd w \<and> tree w' = tree w \<and> readonly w' = readonly w \<and> stdout w' = stdout w
     \<and> content w' = (content w)(f := Inr new)"
  by (auto simp: write_file_def split: option.splits)

lemma failed_frame:
  "cwd (failed f e w) = cwd w \<and> tree (failed f e w) = tree w
   \<and> readonly (failed f e w) = readonly w \<and> content (failed f e w) = content w"
  by (simp add: failed_def print_def)

lemma print_frame:
  "cwd (print l w) = cwd w \<and> tree (print l w) = tree w
   \<and> readonly (print l w) = readonly w \<and> content (print l w) = content w"
  by (simp add: print_def)

lemma process_file_frame:
  assumes "process_file md f (ix, w) = (ix', w')"
  shows "cwd w' = cwd w \<and> tree w' = tree w \<and> readonly w' = readonly w
         \<and> root_dir ix' = root_dir ix \<and> (\<forall>p. p \<noteq> f \<longrightarrow> content w' p = content w p)"
proof (cases "indexed md w (root_dir ix) f")
  case None
  from process_file_none [OF this] assms show ?thesis
    by (auto simp: failed_frame)
next
  case (Some t)
  obtain rel doc hs where t: "t = (rel, doc, hs)"
    by (cases t) auto
  from process_file_ok [OF Some [unfolded t]] assms show ?thesis
    by (auto simp: Let_def failed_frame recorded_def dest!: write_file_frame
        split: if_splits sum.splits)
qed

subsection \<open>Processing a list of files\<close>

lemma process_all_Nil: "process_all md [] st = st"
  by (simp add: process_all_def)

lemma process_all_Cons: "process_all md (f # fs) st = process_all md fs (step md st f)"
  by (simp add: process_all_def step_def)

lemma process_all_append:
  "process_all md (fs @ gs) st = process_all md gs (process_all md fs st)"
  by (simp add: process_all_def)

lemma indexed_print: "indexed md (print l w) root f = indexed md w root f"
  by (simp add: indexed_def read_file_def print_def split: sum.splits)

lemma step_frame:
  assumes "step md (ix, w) f = (ix', w')"
  shows "cwd w' = cwd w \<and> tree w' = tree w \<and> readonly w' = readonly w
         \<and> root_dir ix' = root_dir ix \<and> (\<forall>p. p \<noteq> f \<longrightarrow> content w' p = content w p)"
  using process_file_frame [of md f ix "print (''Processing '' @ f) w" ix' w'] assms
  by (simp add: step_def print_frame)

lemma indexed_cong:
  "cwd w' = cwd w \<Longrightarrow> content w' f = content w f \<Longrightarrow> indexed md w' root f = indexed md w root f"
  by (simp add: indexed_def read_file_def split: sum.splits)

lemma process_all_frame:
  assumes "process_all md files (ix, w) = (ix', w')"
  shows "cwd w' = cwd w \<and> tree w' = tree w \<and> readonly w' = readonly w
         \<and> root_dir ix' = root_dir ix \<and> (\<forall>p. p \<notin> set files \<longrightarrow> content w' p = content w p)"
  using assms
proof (induction files arbitrary: ix w)
  case Nil
  then show ?case by (simp add: process_all_Nil)
next
  case (Cons f fs)
  obtain ix1 w1 where s: "step md (ix, w) f = (ix1, w1)"
    by (cases "step md (ix, w) f") auto
  from Cons.prems s have "process_all md fs (ix1, w1) = (ix', w')"
    by (simp add: process_all_Cons)
  from Cons.IH [OF this] step_frame [OF s] show ?case
    by auto
qed

lemma map_of_add_file:
  "map_of (add_file rel d k) k' =
     (if k' = k then Some (insert rel (lookup {} d k)) else map_of d k')"
  by (simp add: add_file_def update_conv')

lemma lookup_add_file:
  "lookup {} (add_file rel d k) k' =
     (if k' = k then insert rel (lookup {} d k) else lookup {} d k')"
  by (simp add: lookup_def map_of_add_file)

lemma map_of_foldl_add_file:
  "map_of (foldl (add_file rel) d ks) k =
     merged (map_of d k) (if k \<in> set ks then {rel} else {})"
proof (induction ks arbitrary: d)
  case Nil
  show ?case by (simp add: merged_def)
next
  case (Cons a ks)
  show ?case
    by (auto simp: Cons.IH map_of_add_file merged_def lookup_def split: option.splits)
qed

lemma distinct_foldl_add_file:
  "distinct (map fst d) \<Longrightarrow> distinct (map fst (foldl (add_file rel) d ks))"
  by (induction ks arbitrary: d) (simp_all add: add_file_def distinct_update)

lemma merged_merged: "merged (merged m S) T = merged m (S \<union> T)"
  by (auto simp: merged_def split: option.splits)

lemma merged_empty: "merged m {} = m"
  by (simp add: merged_def)

lemma step_indexer:
  "fst (step md (ix, w) f) =
     (case indexed md w (root_dir ix) f of
        None \<Rightarrow> ix
      | Some (rel, doc, hs) \<Rightarrow> recorded doc rel hs ix)"
proof (cases "indexed md w (root_dir ix) f")
  case None
  then have "indexed md (print (''Processing '' @ f) w) (root_dir ix) f = None"
    by (simp add: indexed_print)
  from process_file_none [OF this] None show ?thesis
    by (auto simp: step_def)
next
  case (Some t)
  obtain rel doc hs where t: "t = (rel, doc, hs)"
    by (cases t) auto
  from Some t have "indexed md (print (''Processing '' @ f) w) (root_dir ix) f = Some (rel, doc, hs)"
    by (simp add: indexed_print)
  from process_file_ok [OF this] Some t show ?thesis
    by (auto simp: step_def Let_def split: sum.splits)
qed

lemma step_terms:
  "map_of (terms (fst (step md (ix, w) f))) k =
     merged (map_of (terms ix) k) (matches term_pattern md w (root_dir ix) f k)"
  by (auto simp: step_indexer matches_def recorded_def map_of_foldl_add_file merged_empty
      split: option.splits)

lemma step_acronyms:
  "map_of (acronyms (fst (step md (ix, w) f))) k =
     merged (map_of (acronyms ix) k) (matches acronym_pattern md w (root_dir ix) f k)"
  by (auto simp: step_indexer matches_def recorded_def map_of_foldl_add_file merged_empty
      split: option.splits)

lemma step_distinct:
  "distinct (map fst (terms ix)) \<Longrightarrow> distinct (map fst (terms (fst (step md (ix, w) f))))"
  "distinct (map fst (acronyms ix)) \<Longrightarrow> distinct (map fst (acronyms (fst (step md (ix, w) f))))"
  by (auto simp: step_indexer recorded_def distinct_foldl_add_file split: option.splits)

lemma matched_matches: "matched r md w root files k = (\<Union>f\<in>set files. matches r md w root f k)"
  by (auto simp: matched_def matches_def split: option.splits if_splits) blast

lemma run_merged:
  assumes "distinct files"
  shows "map_of (terms (fst (process_all md files (ix, w)))) k =
           merged (map_of (terms ix) k) (matched term_pattern md w (root_dir ix) files k)
       \<and> map_of (acronyms (fst (process_all md files (ix, w)))) k =
           merged (map_of (acronyms ix) k) (matched acronym_pattern md w (root_dir ix) files k)"
  using assms
proof (induction files arbitrary: ix w)
  case Nil
  show ?case
    by (simp add: process_all_Nil matched_matches merged_empty)
next
  case (Cons f fs)
  obtain ix1 w1 where s: "step md (ix, w) f = (ix1, w1)"
    by (cases "step md (ix, w) f") auto
  from Cons.prems have d: "distinct fs" and nf: "f \<notin> set fs"
    by simp_all
  have same: "matches r md w1 (root_dir ix1) g k = matches r md w (root_dir ix) g k"
    if "g \<in> set fs" for g r
  proof -
    from that nf have "g \<noteq> f" by auto
    with step_frame [OF s] have "indexed md w1 (root_dir ix1) g = indexed md w (root_dir ix) g"
      by (auto intro: indexed_cong)
    then show ?thesis
      by (simp add: matches_def)
  qed
  have ix1: "ix1 = fst (step md (ix, w) f)"
    using s by simp
  show ?case
    using Cons.IH [OF d, of ix1 w1] same
    by (simp add: process_all_Cons s matched_matches ix1 [symmetric]
        step_terms [of md ix w f, unfolded ix1 [symmetric]]
        step_acronyms [of md ix w f, unfolded ix1 [symmetric]] merged_merged)
qed

lemma run_distinct:
  "distinct (map fst (terms ix)) \<and> distinct (map fst (acronyms ix)) \<Longrightarrow>
   distinct (map fst (terms (fst (process_all md files (ix, w)))))
   \<and> distinct (map fst (acronyms (fst (process_all md files (ix, w)))))"
proof (induction files arbitrary: ix w)
  case Nil
  then show ?case by (simp add: process_all_Nil)
next
  case (Cons f fs)
  obtain ix1 w1 where s: "step md (ix, w) f = (ix1, w1)"
    by (cases "step md (ix, w) f") auto
  have "distinct (map fst (terms ix1)) \<and> distinct (map fst (acronyms ix1))"
    using step_distinct [of ix md w f] Cons.prems s by simp
  from Cons.IH [OF this] show ?case
    by (simp add: process_all_Cons s)
qed

lemma process_file_indexer:
  "fst (process_file md f (ix, w)) =
     (case indexed md w (root_dir ix) f of
        None \<Rightarrow> ix
      | Some (rel, doc, hs) \<Rightarrow> recorded doc rel hs ix)"
proof (cases "indexed md w (root_dir ix) f")
  case None
  from process_file_none [OF this] None show ?thesis
    by auto
next
  case (Some t)
  obtain rel doc hs where t: "t = (rel, doc, hs)"
    by (cases t) auto
  from process_file_ok [OF Some [unfolded t]] Some t show ?thesis
    by (auto simp: Let_def split: sum.splits)
qed

lemma merged_grows:
  "m = Some F \<Longrightarrow> \<exists>F'. merged m S = Some F' \<and> F \<subseteq> F'"
  by (auto simp: merged_def)

lemma process_file_grows:
  "map_of (terms ix) k = Some F \<Longrightarrow>
     \<exists>F'. map_of (terms (fst (process_file md f (ix, w)))) k = Some F' \<and> F \<subseteq> F'"
  "map_of (acronyms ix) k = Some F \<Longrightarrow>
     \<exists>F'. map_of (acronyms (fst (process_file md f (ix, w)))) k = Some F' \<and> F \<subseteq> F'"
  by (auto simp: process_file_indexer recorded_def map_of_foldl_add_file
      split: option.splits intro: merged_grows)

text \<open>
  Claim C7. After the files of a list without repetition are processed by a fresh
  indexer, the entry of every string in the term index is exactly the set of the files in
  whose text the term pattern matched that string, and a string that matched nowhere has
  no entry; likewise for the acronyms. The keys are unique, and processing a file never
  removes a key nor a file from an entry.
\<close>

theorem index_accumulation:
  assumes "distinct files"
  shows "map_of (terms (fst (process_all md files (init root, w)))) k =
           (if matched term_pattern md w root files k = {} then None
            else Some (matched term_pattern md w root files k))
       \<and> map_of (acronyms (fst (process_all md files (init root, w)))) k =
           (if matched acronym_pattern md w root files k = {} then None
            else Some (matched acronym_pattern md w root files k))
       \<and> distinct (map fst (terms (fst (process_all md files (init root, w)))))
       \<and> distinct (map fst (acronyms (fst (process_all md files (init root, w)))))
       \<and> (\<forall>ix w' f F. map_of (terms ix) k = Some F \<longrightarrow>
            (\<exists>F'. map_of (terms (fst (process_file md f (ix, w')))) k = Some F' \<and> F \<subseteq> F'))
       \<and> (\<forall>ix w' f F. map_of (acronyms ix) k = Some F \<longrightarrow>
            (\<exists>F'. map_of (acronyms (fst (process_file md f (ix, w')))) k = Some F' \<and> F \<subseteq> F'))"
proof -
  have r: "root_dir (init root) = root" "terms (init root) = []" "acronyms (init root) = []"
    by (simp_all add: init_def)
  from run_merged [OF assms, of md "init root" w k]
  have "map_of (terms (fst (process_all md files (init root, w)))) k =
           (if matched term_pattern md w root files k = {} then None
            else Some (matched term_pattern md w root files k))"
    and "map_of (acronyms (fst (process_all md files (init root, w)))) k =
           (if matched acronym_pattern md w root files k = {} then None
            else Some (matched acronym_pattern md w root files k))"
    by (simp_all add: r merged_def)
  moreover from run_distinct [of "init root" md files w]
  have "distinct (map fst (terms (fst (process_all md files (init root, w)))))"
    and "distinct (map fst (acronyms (fst (process_all md files (init root, w)))))"
    by (simp_all add: r)
  ultimately show ?thesis
    using process_file_grows by blast
qed

subsection \<open>Files without headings\<close>

lemma map_of_append_heading:
  "map_of (append_heading rel t h) k =
     (if k = rel then Some (lookup [] t rel @ [entry h]) else map_of t k)"
  by (simp add: append_heading_def update_conv')

lemma map_of_foldl_append_heading:
  "map_of (foldl (append_heading rel) t hs) k =
     (if k = rel \<and> hs \<noteq> [] then Some (lookup [] t rel @ map entry hs) else map_of t k)"
proof (induction hs arbitrary: t)
  case Nil
  show ?case by simp
next
  case (Cons h hs)
  show ?case
    by (simp add: Cons.IH map_of_append_heading lookup_def)
qed

lemma map_of_toc_recorded:
  "map_of (toc (recorded doc rel hs ix)) k =
     (if k = rel then Some (lookup [] (toc ix) rel @ map entry hs) else map_of (toc ix) k)"
  by (auto simp: recorded_def map_of_touch map_of_foldl_append_heading lookup_def
      split: option.splits)

lemma indexed_rel:
  "indexed md w root f = Some (rel, doc, hs) \<Longrightarrow>
     relpath (cwd w) f root = Inr rel \<and> read_file w f = Inr doc \<and> md doc = Inr hs"
  by (auto simp: indexed_def split: sum.splits)

lemma step_toc_other:
  assumes "relpath (cwd w) f (root_dir ix) \<noteq> Inr k"
  shows "map_of (toc (fst (step md (ix, w) f))) k = map_of (toc ix) k"
  using assms
  by (auto simp: step_indexer map_of_toc_recorded split: option.splits dest!: indexed_rel)

lemma run_toc_other:
  assumes "\<forall>f\<in>set files. relpath (cwd w) f (root_dir ix) \<noteq> Inr k"
  shows "map_of (toc (fst (process_all md files (ix, w)))) k = map_of (toc ix) k"
  using assms
proof (induction files arbitrary: ix w)
  case Nil
  show ?case by (simp add: process_all_Nil)
next
  case (Cons f fs)
  obtain ix1 w1 where s: "step md (ix, w) f = (ix1, w1)"
    by (cases "step md (ix, w) f") auto
  from step_frame [OF s] Cons.prems
  have "\<forall>g\<in>set fs. relpath (cwd w1) g (root_dir ix1) \<noteq> Inr k"
    by simp
  from Cons.IH [OF this] step_toc_other [of w f ix k md] Cons.prems s show ?case
    by (simp add: process_all_Cons)
qed

lemma step_no_headings:
  assumes "indexed md w (root_dir ix) f = Some (rel, doc, [])" and "map_of (toc ix) rel = None"
  shows "step md (ix, w) f = (recorded doc rel [] ix, print (''Processing '' @ f) w)"
    and "map_of (toc (recorded doc rel [] ix)) rel = Some []"
proof -
  show t: "map_of (toc (recorded doc rel [] ix)) rel = Some []"
    using assms(2) by (simp add: map_of_toc_recorded lookup_def)
  from assms(1) have "indexed md (print (''Processing '' @ f) w) (root_dir ix) f = Some (rel, doc, [])"
    by (simp add: indexed_print)
  from process_file_ok [OF this] t show "step md (ix, w) f = (recorded doc rel [] ix, print (''Processing '' @ f) w)"
    by (simp add: step_def Let_def lookup_def)
qed

lemma run_no_headings:
  assumes d: "distinct (map (\<lambda>f. relpath (cwd w) f root) files)"
    and f: "f \<in> set files"
    and i: "indexed md w root f = Some (rel, doc, [])"
  shows "content (snd (process_all md files (init root, w))) f = Inr doc
       \<and> map_of (toc (fst (process_all md files (init root, w)))) rel = Some []"
proof -
  from f obtain pre post where files: "files = pre @ f # post"
    by (auto dest: split_list)
  from indexed_rel [OF i] have rel: "relpath (cwd w) f root = Inr rel" and doc: "content w f = Inr doc"
    by (simp_all add: read_file_def)
  from d files rel have pre: "\<forall>g\<in>set pre. relpath (cwd w) g root \<noteq> Inr rel"
    and post: "\<forall>g\<in>set post. relpath (cwd w) g root \<noteq> Inr rel"
    by (auto simp: image_iff)
  from d have "distinct files"
    by (simp add: distinct_map)
  with files have nf: "f \<notin> set pre" "f \<notin> set post"
    by auto
  obtain ix1 w1 where s1: "process_all md pre (init root, w) = (ix1, w1)"
    by (cases "process_all md pre (init root, w)") auto
  have r0: "root_dir (init root) = root" "toc (init root) = []"
    by (simp_all add: init_def)
  from process_all_frame [OF s1] nf(1) r0
  have fr1: "cwd w1 = cwd w" "root_dir ix1 = root" "content w1 f = content w f"
    by auto
  from run_toc_other [of pre w "init root" rel md] pre s1 r0
  have t1: "map_of (toc ix1) rel = None"
    by simp
  from i fr1 have i1: "indexed md w1 (root_dir ix1) f = Some (rel, doc, [])"
    by (simp add: indexed_cong [of w1 w f md root])
  let ?ix2 = "recorded doc rel [] ix1" and ?w2 = "print (''Processing '' @ f) w1"
  from step_no_headings [OF i1 t1]
  have s2: "step md (ix1, w1) f = (?ix2, ?w2)" and t2: "map_of (toc ?ix2) rel = Some []"
    by simp_all
  obtain ix3 w3 where s3: "process_all md post (?ix2, ?w2) = (ix3, w3)"
    by (cases "process_all md post (?ix2, ?w2)") auto
  have all: "process_all md files (init root, w) = (ix3, w3)"
    using s2 s3 by (simp add: files process_all_append process_all_Cons s1)
  from process_all_frame [OF s3] nf(2) have "content w3 f = content ?w2 f"
    by auto
  with fr1 doc have c: "content w3 f = Inr doc"
    by (simp add: print_frame)
  have "root_dir ?ix2 = root" "cwd ?w2 = cwd w"
    using fr1 by (simp_all add: recorded_def print_frame)
  with run_toc_other [of post ?w2 ?ix2 rel md] post s3 t2
  have "map_of (toc ix3) rel = Some []"
    by simp
  with c all show ?thesis
    by simp
qed

text \<open>
  Claim C6. In a run over files with distinct relative paths, a file that is read and in
  which no heading is found is not written: after the whole list is processed its content
  is the text that was read, so no table of contents was put into it. A file is rewritten
  only where a heading was found.
\<close>

theorem no_headings_no_write:
  assumes "distinct (map (\<lambda>f. relpath (cwd w) f root) files)"
    and "f \<in> set files"
    and "read_file w f = Inr doc" and "relpath (cwd w) f root = Inr rel" and "md doc = Inr []"
  shows "content (snd (process_all md files (init root, w))) f = Inr doc"
proof -
  from assms(3-5) have "indexed md w root f = Some (rel, doc, [])"
    by (simp add: indexed_def)
  from run_no_headings [OF assms(1,2) this] show ?thesis
    by simp
qed

lemma index_file_listed:
  assumes "map_of t rel = Some hs"
  shows "\<exists>pre post. concat (map index_file (sort_key fst t)) = pre @ index_file (rel, hs) @ post"
proof -
  from assms have "(rel, hs) \<in> set (sort_key fst t)"
    by (simp add: map_of_SomeD)
  then obtain xs ys where "sort_key fst t = xs @ (rel, hs) # ys"
    by (meson split_list)
  then have "concat (map index_file (sort_key fst t)) =
      concat (map index_file xs) @ index_file (rel, hs) @ concat (map index_file ys)"
    by simp
  then show ?thesis
    by blast
qed

text \<open>
  Claim C10. In a run over files with distinct relative paths, a file that is read and in
  which no heading is found still gets an entry in the per-file table of contents, with
  the empty list of headings, and the index then generated has, inside its Files section,
  the subheading of the file followed by no list item.
\<close>

theorem no_headings_listed:
  assumes "distinct (map (\<lambda>f. relpath (cwd w) f root) files)"
    and "f \<in> set files"
    and "read_file w f = Inr doc" and "relpath (cwd w) f root = Inr rel" and "md doc = Inr []"
  shows "map_of (toc (fst (process_all md files (init root, w)))) rel = Some []
       \<and> (\<exists>pre post rest.
            index_content (fst (process_all md files (init root, w))) =
              ''# Documentation Index\<newline>\<newline>## Files\<newline>\<newline>''
              @ pre @ (''### '' @ rel @ ''\<newline>\<newline>'' @ ''\<newline>'') @ post
              @ ''## Technical Terms\<newline>\<newline>'' @ rest)"
proof -
  from assms(3-5) have "indexed md w root f = Some (rel, doc, [])"
    by (simp add: indexed_def)
  from run_no_headings [OF assms(1,2) this]
  have t: "map_of (toc (fst (process_all md files (init root, w)))) rel = Some []"
    by simp
  from index_file_listed [OF t] obtain pre post where
    "concat (map index_file (sort_key fst (toc (fst (process_all md files (init root, w)))))) =
       pre @ index_file (rel, []) @ post"
    by blast
  then have "index_content (fst (process_all md files (init root, w))) =
      ''# Documentation Index\<newline>\<newline>## Files\<newline>\<newline>''
      @ pre @ (''### '' @ rel @ ''\<newline>\<newline>'' @ ''\<newline>'') @ post
      @ ''## Technical Terms\<newline>\<newline>''
      @ (concat (map index_term (sort_key fst (terms (fst (process_all md files (init root, w))))))
         @ ''\<newline>'' @ ''## Acronyms\<newline>\<newline>''
         @ concat (map index_term (sort_key fst (acronyms (fst (process_all md files (init root, w)))))))"
    by (simp add: index_content_def index_file_def)
  with t show ?thesis
    by blast
qed

subsection \<open>The layout of the index\<close>

lemma index_term_entry: "map index_term d = map index_entry (file_lists d)"
  by (simp add: file_lists_def index_term_def index_entry_def split_def)

lemma file_lists_sorted: "list_all (\<lambda>(k, files). sorted files \<and> distinct files) (file_lists d)"
  by (simp add: file_lists_def list_all_iff split_def)

lemma file_lists_keys: "map fst (file_lists d) = map fst d"
  by (simp add: file_lists_def split_def)

text \<open>
  Claim C9. The index is, in this order, the title, the Files section, the Technical Terms
  section and the Acronyms section. The Files section has one block for each file of the
  table of contents, the blocks ordered by path; the other two sections have one entry for
  each key, the entries ordered by key, and the files under each key ordered and without
  repetition.
\<close>

theorem index_layout:
  "\<exists>fs ts as.
     index_content ix =
       ''# Documentation Index\<newline>\<newline>''
       @ ''## Files\<newline>\<newline>'' @ concat (map index_file fs)
       @ ''## Technical Terms\<newline>\<newline>'' @ concat (map index_entry (file_lists ts)) @ ''\<newline>''
       @ ''## Acronyms\<newline>\<newline>'' @ concat (map index_entry (file_lists as))
     \<and> mset fs = mset (toc ix) \<and> sorted (map fst fs)
     \<and> mset ts = mset (terms ix) \<and> sorted (map fst (file_lists ts))
     \<and> mset as = mset (acronyms ix) \<and> sorted (map fst (file_lists as))
     \<and> list_all (\<lambda>(k, files). sorted files \<and> distinct files) (file_lists ts)
     \<and> list_all (\<lambda>(k, files). sorted files \<and> distinct files) (file_lists as)"
proof (intro exI conjI)
  show "index_content ix =
       ''# Documentation Index\<newline>\<newline>''
       @ ''## Files\<newline>\<newline>'' @ concat (map index_file (sort_key fst (toc ix)))
       @ ''## Technical Terms\<newline>\<newline>''
       @ concat (map index_entry (file_lists (sort_key fst (terms ix)))) @ ''\<newline>''
       @ ''## Acronyms\<newline>\<newline>''
       @ concat (map index_entry (file_lists (sort_key fst (acronyms ix))))"
    by (simp add: index_content_def index_term_entry)
qed (simp_all add: file_lists_keys file_lists_sorted)

subsection \<open>Exceptions\<close>

lemma startswith_prefix: "startswith s p \<longleftrightarrow> prefix p s"
  by (metis startswith_def take_is_prefix append_eq_conv_conj prefix_def)

lemma error_line_not_announced:
  "startswith l ''Error processing '' \<Longrightarrow> \<not> startswith l ''Processing ''"
  by (cases l) (auto simp: startswith_prefix)

lemma stdout_process_file:
  "\<exists>ls. stdout (snd (process_file md f (ix, w))) = stdout w @ ls
        \<and> list_all (\<lambda>l. startswith l ''Error processing '') ls"
proof (cases "indexed md w (root_dir ix) f")
  case None
  from process_file_none [OF this] show ?thesis
    by (auto simp: failed_def print_def startswith_prefix)
next
  case (Some t)
  obtain rel doc hs where t: "t = (rel, doc, hs)"
    by (cases t) auto
  from process_file_ok [OF Some [unfolded t]] show ?thesis
    by (auto simp: Let_def failed_def print_def startswith_prefix
        dest!: write_file_frame split: sum.splits)
qed

lemma announced_errors:
  "list_all (\<lambda>l. startswith l ''Error processing '') ls \<Longrightarrow> announced ls = []"
  by (induction ls) (auto simp: announced_def error_line_not_announced)

lemma announced_append: "announced (xs @ ys) = announced xs @ announced ys"
  by (simp add: announced_def)

lemma announced_step:
  "announced (stdout (snd (step md (ix, w) f))) = announced (stdout w) @ [''Processing '' @ f]"
proof -
  from stdout_process_file [of md f ix "print (''Processing '' @ f) w"]
  obtain ls where out: "stdout (snd (step md (ix, w) f)) = stdout w @ [''Processing '' @ f] @ ls"
    and "list_all (\<lambda>l. startswith l ''Error processing '') ls"
    by (auto simp: step_def print_def)
  from this(2) have "announced ls = []"
    by (rule announced_errors)
  moreover have "announced [''Processing '' @ f] = [''Processing '' @ f]"
    by (simp add: announced_def startswith_prefix)
  ultimately show ?thesis
    unfolding out announced_append by simp
qed

lemma announced_run:
  "announced (stdout (snd (process_all md files (ix, w)))) =
     announced (stdout w) @ map (\<lambda>f. ''Processing '' @ f) files"
proof (induction files arbitrary: ix w)
  case Nil
  show ?case by (simp add: process_all_Nil)
next
  case (Cons f fs)
  obtain ix1 w1 where s: "step md (ix, w) f = (ix1, w1)"
    by (cases "step md (ix, w) f") auto
  from announced_step [of md ix w f] s have "announced (stdout w1) = announced (stdout w) @ [''Processing '' @ f]"
    by simp
  with Cons.IH [of ix1 w1] show ?case
    by (simp add: process_all_Cons s)
qed

lemma process_file_read_error:
  "read_file w f = Inl e \<Longrightarrow> process_file md f (ix, w) = (ix, failed f e w)"
  by (simp add: process_file_def)

lemma process_file_relpath_error:
  "read_file w f = Inr doc \<Longrightarrow> relpath (cwd w) f (root_dir ix) = Inl e \<Longrightarrow>
     process_file md f (ix, w) = (ix, failed f e w)"
  by (simp add: process_file_def)

lemma process_file_render_error:
  "read_file w f = Inr doc \<Longrightarrow> relpath (cwd w) f (root_dir ix) = Inr rel \<Longrightarrow> md doc = Inl e \<Longrightarrow>
     process_file md f (ix, w) = (ix, failed f e w)"
  by (simp add: process_file_def extract_headings_def)

lemma process_file_rewrite_error:
  assumes "indexed md w (root_dir ix) f = Some (rel, doc, hs)"
    and "lookup [] (toc (recorded doc rel hs ix)) rel \<noteq> []"
  shows "new_content (lookup [] (toc (recorded doc rel hs ix)) rel) doc = Inl e \<Longrightarrow>
           process_file md f (ix, w) = (recorded doc rel hs ix, failed f e w)"
    and "new_content (lookup [] (toc (recorded doc rel hs ix)) rel) doc = Inr new \<Longrightarrow>
           write_file w f new = Inl e \<Longrightarrow>
           process_file md f (ix, w) = (recorded doc rel hs ix, failed f e w)"
  using process_file_ok [OF assms(1)] assms(2)
  by (simp_all add: Let_def)

text \<open>
  Claim C5. Whatever raises while a file is processed (reading it, taking its relative
  path, rendering its headings, building the new text or writing it), \<^verbatim>\<open>process_file\<close>
  prints one line with the path and the text of the exception and returns. The loop then
  goes on with the rest of the list, so every file of the list is announced and processed,
  whatever happened to the files before it.
\<close>

theorem errors_contained:
  "(read_file w f = Inl e \<longrightarrow>
      process_file md f (ix, w) =
        (ix, print (''Error processing '' @ f @ '': '' @ str_error e) w))
   \<and> (read_file w f = Inr doc \<and> relpath (cwd w) f (root_dir ix) = Inl e \<longrightarrow>
      process_file md f (ix, w) =
        (ix, print (''Error processing '' @ f @ '': '' @ str_error e) w))
   \<and> (read_file w f = Inr doc \<and> relpath (cwd w) f (root_dir ix) = Inr rel \<and> md doc = Inl e \<longrightarrow>
      process_file md f (ix, w) =
        (ix, print (''Error processing '' @ f @ '': '' @ str_error e) w))
   \<and> (indexed md w (root_dir ix) f = Some (rel, doc, hs)
        \<and> lookup [] (toc (recorded doc rel hs ix)) rel \<noteq> []
        \<and> new_content (lookup [] (toc (recorded doc rel hs ix)) rel) doc = Inl e \<longrightarrow>
      process_file md f (ix, w) =
        (recorded doc rel hs ix, print (''Error processing '' @ f @ '': '' @ str_error e) w))
   \<and> (indexed md w (root_dir ix) f = Some (rel, doc, hs)
        \<and> lookup [] (toc (recorded doc rel hs ix)) rel \<noteq> []
        \<and> new_content (lookup [] (toc (recorded doc rel hs ix)) rel) doc = Inr new
        \<and> write_file w f new = Inl e \<longrightarrow>
      process_file md f (ix, w) =
        (recorded doc rel hs ix, print (''Error processing '' @ f @ '': '' @ str_error e) w))
   \<and> process_all md (f # files) (ix, w) =
       process_all md files (process_file md f (ix, print (''Processing '' @ f) w))
   \<and> announced (stdout (snd (process_all md files (ix, w)))) =
       announced (stdout w) @ map (\<lambda>f. ''Processing '' @ f) files"
proof (intro conjI impI)
  show "process_all md (f # files) (ix, w) =
       process_all md files (process_file md f (ix, print (''Processing '' @ f) w))"
    by (simp add: process_all_Cons step_def)
  show "announced (stdout (snd (process_all md files (ix, w)))) =
       announced (stdout w) @ map (\<lambda>f. ''Processing '' @ f) files"
    by (rule announced_run)
qed (auto simp: failed_def process_file_read_error process_file_relpath_error
      process_file_render_error process_file_rewrite_error)

subsection \<open>Examples\<close>

lemma sample_twice:
  "twice atx_headings ''.'' ''./y.md'' sample =
     (Inr (''# Title\<newline>\<newline>## Table of Contents\<newline>- [Title](#title)\<newline>\<newline>''
           @ ''\<newline>\<newline>A HeadingLevel.''),
      Inr (''# Title\<newline>\<newline>## Table of Contents\<newline>- [Title](#title)\<newline>''
           @ ''  - [Table of Contents](#table-of-contents)\<newline>\<newline>''
           @ ''\<newline>\<newline>A HeadingLevel.''))"
  by code_simp

lemma sample_hyps:
  "distinct (map (\<lambda>f. relpath (cwd sample) f ''.'') [''./x.md'', ''./y.md'', ''./z.md''])"
  "read_file sample ''./x.md'' = Inr doc_x"
  "relpath (cwd sample) ''./x.md'' ''.'' = Inr ''x.md''"
  "atx_headings doc_x = Inr []"
  by code_simp+

lemma sample_matched:
  "(\<Union>f\<in>set [''./x.md'', ''./y.md'', ''./z.md'']. matches term_pattern atx_headings sample ''.'' f ''HeadingLevel'') = {''x.md'', ''y.md''}"
  "(\<Union>f\<in>set [''./x.md'', ''./y.md'', ''./z.md'']. matches acronym_pattern atx_headings sample ''.'' f ''HTTP'') = {''x.md''}"
  by code_simp+

theorem no_headings_no_write_witness:
  "distinct (map (\<lambda>f. relpath (cwd sample) f ''.'') [''./x.md'', ''./y.md'', ''./z.md''])
   \<and> atx_headings doc_x = Inr []
   \<and> content (snd (process_all atx_headings [''./x.md'', ''./y.md'', ''./z.md''] (init ''.'', sample)))
         ''./x.md'' = Inr doc_x"
  using no_headings_no_write [where w = sample and root = "''.''"
      and files = "[''./x.md'', ''./y.md'', ''./z.md'']" and f = "''./x.md''" and doc = doc_x
      and rel = "''x.md''" and md = atx_headings]
    sample_hyps
  by simp

theorem no_headings_listed_witness:
  "distinct (map (\<lambda>f. relpath (cwd sample) f ''.'') [''./x.md'', ''./y.md'', ''./z.md''])
   \<and> atx_headings doc_x = Inr []
   \<and> map_of (toc (fst (process_all atx_headings [''./x.md'', ''./y.md'', ''./z.md'']
         (init ''.'', sample)))) ''x.md'' = Some []"
  using no_headings_listed [where w = sample and root = "''.''"
      and files = "[''./x.md'', ''./y.md'', ''./z.md'']" and f = "''./x.md''" and doc = doc_x
      and rel = "''x.md''" and md = atx_headings]
    sample_hyps
  by simp

theorem index_accumulation_witness:
  "distinct [''./x.md'', ''./y.md'', ''./z.md'']
   \<and> map_of (terms (fst (process_all atx_headings [''./x.md'', ''./y.md'', ''./z.md'']
         (init ''.'', sample)))) ''HeadingLevel'' = Some {''x.md'', ''y.md''}"
proof -
  have d: "distinct [''./x.md'', ''./y.md'', ''./z.md'']"
    by simp
  have m: "matched term_pattern atx_headings sample ''.'' [''./x.md'', ''./y.md'', ''./z.md'']
      ''HeadingLevel'' = {''x.md'', ''y.md''}"
    by (simp only: matched_matches sample_matched)
  from index_accumulation [OF d, where md = atx_headings and root = "''.''" and w = sample
      and k = "''HeadingLevel''"] m d
  show ?thesis
    by simp
qed

lemma witness_hyps:
  "read_file sample ''./z.md'' = Inl (OSError ''[Errno 13] Permission denied'')"
  "read_file escaped [] = Inr doc_t"
  "relpath (cwd escaped) [] (root_dir (init ''.'')) = Inl (ValueError ''no path specified'')"
  "relpath (cwd sample) ''./x.md'' (root_dir (init ''.'')) = Inr ''x.md''"
  "broken doc_x = Inl (RenderError ''no renderer'')"
  "indexed atx_headings escaped (root_dir (init ''.'')) ''./t.md''
     = Some (''t.md'', doc_t, [(h1, '' a'' @ [backslash] @ ''q''), (h2, '' Table of Contents'')])"
  "lookup [] (toc (recorded doc_t ''t.md'' [(h1, '' a'' @ [backslash] @ ''q''), (h2, '' Table of Contents'')]
     (init ''.''))) ''t.md''
     = [(1, ''a'' @ [backslash] @ ''q'', ''a'' @ [backslash] @ ''q''),
        (2, ''Table of Contents'', ''table-of-contents'')]"
  "new_content [(1, ''a'' @ [backslash] @ ''q'', ''a'' @ [backslash] @ ''q''),
        (2, ''Table of Contents'', ''table-of-contents'')] doc_t = Inl bad_escape"
  "indexed atx_headings locked (root_dir (init ''.'')) ''./y.md''
     = Some (''y.md'', doc_y, [(h1, '' Title'')])"
  "lookup [] (toc (recorded doc_y ''y.md'' [(h1, '' Title'')] (init ''.''))) ''y.md''
     = [(1, ''Title'', ''title'')]"
  "new_content [(1, ''Title'', ''title'')] doc_y =
     Inr (''# Title\<newline>\<newline>## Table of Contents\<newline>- [Title](#title)\<newline>\<newline>''
          @ ''\<newline>\<newline>A HeadingLevel.'')"
  by code_simp+

lemma witness_locked:
  "write_file locked ''./y.md'' new = Inl (OSError ''[Errno 30] Read-only file system'')"
  by (simp add: write_file_def locked_def)

theorem errors_contained_witness:
  "process_file atx_headings ''./z.md'' (init ''.'', sample) =
     (init ''.'', print ''Error processing ./z.md: [Errno 13] Permission denied'' sample)
   \<and> process_file atx_headings [] (init ''.'', escaped) =
     (init ''.'', print ''Error processing : no path specified'' escaped)
   \<and> process_file broken ''./x.md'' (init ''.'', sample) =
     (init ''.'', print ''Error processing ./x.md: no renderer'' sample)
   \<and> process_file atx_headings ''./t.md'' (init ''.'', escaped) =
     (recorded doc_t ''t.md'' [(h1, '' a'' @ [backslash] @ ''q''), (h2, '' Table of Contents'')]
        (init ''.''),
      print (''Error processing ./t.md: '' @ str_error bad_escape) escaped)
   \<and> process_file atx_headings ''./y.md'' (init ''.'', locked) =
     (recorded doc_y ''y.md'' [(h1, '' Title'')] (init ''.''),
      print ''Error processing ./y.md: [Errno 30] Read-only file system'' locked)"
proof (intro conjI)
  show "process_file atx_headings ''./z.md'' (init ''.'', sample) =
     (init ''.'', print ''Error processing ./z.md: [Errno 13] Permission denied'' sample)"
    using errors_contained [where w = sample and f = "''./z.md''" and md = atx_headings
        and ix = "init ''.''" and e = "OSError ''[Errno 13] Permission denied''"]
      witness_hyps(1)
    by simp
  show "process_file atx_headings [] (init ''.'', escaped) =
     (init ''.'', print ''Error processing : no path specified'' escaped)"
    using errors_contained [where w = escaped and f = "[]" and md = atx_headings
        and ix = "init ''.''" and e = "ValueError ''no path specified''" and doc = doc_t]
      witness_hyps(2,3)
    by simp
  show "process_file broken ''./x.md'' (init ''.'', sample) =
     (init ''.'', print ''Error processing ./x.md: no renderer'' sample)"
    using errors_contained [where w = sample and f = "''./x.md''" and md = broken
        and ix = "init ''.''" and e = "RenderError ''no renderer''" and doc = doc_x
        and rel = "''x.md''"]
      sample_hyps(2) witness_hyps(4,5)
    by simp
  show "process_file atx_headings ''./t.md'' (init ''.'', escaped) =
     (recorded doc_t ''t.md'' [(h1, '' a'' @ [backslash] @ ''q''), (h2, '' Table of Contents'')]
        (init ''.''),
      print (''Error processing ./t.md: '' @ str_error bad_escape) escaped)"
    using errors_contained [where w = escaped and f = "''./t.md''" and md = atx_headings
        and ix = "init ''.''" and e = bad_escape and doc = doc_t and rel = "''t.md''"
        and hs = "[(h1, '' a'' @ [backslash] @ ''q''), (h2, '' Table of Contents'')]"]
      witness_hyps(6,7,8)
    by simp
  show "process_file atx_headings ''./y.md'' (init ''.'', locked) =
     (recorded doc_y ''y.md'' [(h1, '' Title'')] (init ''.''),
      print ''Error processing ./y.md: [Errno 30] Read-only file system'' locked)"
    using errors_contained [where w = locked and f = "''./y.md''" and md = atx_headings
        and ix = "init ''.''" and e = "OSError ''[Errno 30] Read-only file system''"
        and doc = doc_y and rel = "''y.md''" and hs = "[(h1, '' Title'')]"
        and new = "''# Title\<newline>\<newline>## Table of Contents\<newline>- [Title](#title)\<newline>\<newline>''
          @ ''\<newline>\<newline>A HeadingLevel.''"]
      witness_hyps(9,10,11) witness_locked
    by simp
qed

lemma scenario_main:
  "observe [''./a.md'', ''./b.md'', ''./INDEX.md''] (main atx_headings scenario) =
     (None,
      \<lparr>root_dir = ''.'', terms = [], acronyms = [],
       toc = [(''a.md'', [(1, ''Intro'', ''intro'')]), (''b.md'', [(2, ''Section'', ''section'')])]\<rparr>,
      [Inr (''# Intro\<newline>\<newline>## Table of Contents\<newline>- [Intro](#intro)\<newline>\<newline>\<newline>\<newline>''
            @ ''Some PYTHON_SCRIPT and camelCaseWord here.''),
       Inr (''## Table of Contents\<newline>  - [Section](#section)\<newline>\<newline>## Section\<newline>\<newline>''
            @ ''Another camelCaseWord.''),
       Inr scenario_index])"
  by code_simp

lemma scenario_index_terms:
  "\<not> sublist ''camelCaseWord'' scenario_index"
  by code_simp

text \<open>
  Claim C2, amended. In the scenario of the two files, with the parser of headings for the
  renderer, the run ends without an exception; \<^verbatim>\<open>a.md\<close> gets a table of contents after
  its heading, with the link to \<^verbatim>\<open>#intro\<close>; \<^verbatim>\<open>b.md\<close> gets one at its start, with its
  heading of the second level as the entry for \<^verbatim>\<open>#section\<close>; and the index lists both
  files with their headings and has no technical term and no acronym: \<^verbatim>\<open>camelCaseWord\<close>
  begins with a small letter, so the pattern of the terms does not match it.
\<close>

theorem scenario_run:
  "fst (main atx_headings scenario) = None
   \<and> content (snd (snd (main atx_headings scenario))) ''./a.md'' =
       Inr (''# Intro\<newline>\<newline>## Table of Contents\<newline>- [Intro](#intro)\<newline>\<newline>\<newline>\<newline>''
            @ ''Some PYTHON_SCRIPT and camelCaseWord here.'')
   \<and> content (snd (snd (main atx_headings scenario))) ''./b.md'' =
       Inr (''## Table of Contents\<newline>  - [Section](#section)\<newline>\<newline>## Section\<newline>\<newline>''
            @ ''Another camelCaseWord.'')
   \<and> content (snd (snd (main atx_headings scenario))) ''./INDEX.md'' = Inr scenario_index
   \<and> terms (fst (snd (main atx_headings scenario))) = []
   \<and> acronyms (fst (snd (main atx_headings scenario))) = []"
  using scenario_main
  by (cases "main atx_headings scenario") (simp add: observe_def)

text \<open>
  The claim as stated fails on the code: in the scenario the term index has no entry for
  \<^verbatim>\<open>camelCaseWord\<close>, and the text of the index does not contain the word.
\<close>

theorem scenario_terms_counterexample:
  "map_of (terms (fst (snd (main atx_headings scenario)))) ''camelCaseWord'' = None
   \<and> content (snd (snd (main atx_headings scenario))) ''./INDEX.md'' = Inr scenario_index
   \<and> \<not> sublist ''camelCaseWord'' scenario_index"
  using scenario_main scenario_index_terms
  by (cases "main atx_headings scenario") (simp add: observe_def)

text \<open>
  Claim C1 as stated fails on the code: the second run finds the heading of the table of
  contents that the first run put in, lists it, and so writes another text.
\<close>

theorem twice_counterexample:
  "atx_headings doc_y = Inr [(h1, '' Title'')]
   \<and> fst (twice atx_headings ''.'' ''./y.md'' sample) =
       Inr (''# Title\<newline>\<newline>## Table of Contents\<newline>- [Title](#title)\<newline>\<newline>''
            @ ''\<newline>\<newline>A HeadingLevel.'')
   \<and> snd (twice atx_headings ''.'' ''./y.md'' sample) =
       Inr (''# Title\<newline>\<newline>## Table of Contents\<newline>- [Title](#title)\<newline>''
            @ ''  - [Table of Contents](#table-of-contents)\<newline>\<newline>''
            @ ''\<newline>\<newline>A HeadingLevel.'')
   \<and> fst (twice atx_headings ''.'' ''./y.md'' sample) \<noteq> snd (twice atx_headings ''.'' ''./y.md'' sample)"
proof -
  have "atx_headings doc_y = Inr [(h1, '' Title'')]"
    by code_simp
  with sample_twice show ?thesis
    by simp
qed

text \<open>
  Claim C4 as stated fails on the code. The pattern of the block is searched anywhere in
  the text, so a block is found in a line that only ends with \<^verbatim>\<open>## Table of Contents\<close>; and
  the character after the \<^verbatim>\<open>#\<close> of a heading may be the newline, so a line that is only
  \<^verbatim>\<open>#\<close> is taken for a heading together with the line after it.
\<close>

theorem placement_counterexample:
  "new_content [(1, ''H'', ''h'')] ''x## Table of Contents\<newline>\<newline># H'' =
     Inr ''x## Table of Contents\<newline>- [H](#h)\<newline>\<newline># H''
   \<and> placement_claimed [(1, ''H'', ''h'')] ''x## Table of Contents\<newline>\<newline># H'' =
     ''x## Table of Contents\<newline>\<newline># H\<newline>\<newline>## Table of Contents\<newline>- [H](#h)\<newline>\<newline>''
   \<and> new_content [(1, ''H'', ''h'')] ''#\<newline>foo'' =
     Inr ''#\<newline>foo\<newline>\<newline>## Table of Contents\<newline>- [H](#h)\<newline>\<newline>''
   \<and> placement_claimed [(1, ''H'', ''h'')] ''#\<newline>foo'' =
     ''## Table of Contents\<newline>- [H](#h)\<newline>\<newline>#\<newline>foo''
   \<and> new_content [(1, ''H'', ''h'')] ''x## Table of Contents\<newline>\<newline># H''
         \<noteq> Inr (placement_claimed [(1, ''H'', ''h'')] ''x## Table of Contents\<newline>\<newline># H'')
   \<and> new_content [(1, ''H'', ''h'')] ''#\<newline>foo''
         \<noteq> Inr (placement_claimed [(1, ''H'', ''h'')] ''#\<newline>foo'')"
  by code_simp

end
